theory Spec2Isabelle
  imports Complex_Main
begin

section \<open>Python values, dictionaries and messages\<close>

text \<open>
  The values that travel in a message: \<open>None\<close>, booleans, integers, strings, lists and
  dictionaries. A Python \<open>dict\<close> keeps its insertion order, so it is an association
  list; its meaning as a mapping is \<open>map_of\<close>.
\<close>

datatype pyval =
    PNone
  | PBool bool
  | PInt int
  | PStr string
  | PList "pyval list"
  | PDict "(string \<times> pyval) list"

type_synonym pydict = "(string \<times> pyval) list"

text \<open>\<open>d.get(key, default)\<close>: the stored value when the key is present, whatever it is.\<close>

definition dict_get :: "pydict \<Rightarrow> string \<Rightarrow> pyval \<Rightarrow> pyval" where
  "dict_get d k dflt = (case map_of d k of Some v \<Rightarrow> v | None \<Rightarrow> dflt)"

text \<open>\<open>d[key] = value\<close> and \<open>d.update(other)\<close> on an insertion-ordered dictionary.\<close>

fun dict_set :: "pydict \<Rightarrow> string \<Rightarrow> pyval \<Rightarrow> pydict" where
  "dict_set [] k v = [(k, v)]"
| "dict_set ((k', v') # d) k v =
     (if k' = k then (k, v) # d else (k', v') # dict_set d k v)"

fun dict_update :: "pydict \<Rightarrow> pydict \<Rightarrow> pydict" where
  "dict_update d [] = d"
| "dict_update d ((k, v) # u) = dict_update (dict_set d k v) u"

text \<open>
  \<open>Message\<close> is imported from \<open>..message\<close>, which is not among the source files. Its
  fields are the six the specification lists.
\<close>

record message =
  queue_name :: string
  actor_name :: string
  args :: "pyval list"
  kwargs :: pydict
  options :: pydict
  message_id :: string

text \<open>
  Modelled from the spec: \<open>Message.copy\<close> (module \<open>..message\<close> is missing). The
  specification calls it a copy with overrides that returns a new value; the options
  given are laid over the message's own options, every other field not named is kept.
\<close>

definition copy :: "message \<Rightarrow> string \<Rightarrow> pydict \<Rightarrow> message" where
  "copy m qn opts = m\<lparr>queue_name := qn, options := dict_update (options m) opts\<rparr>"

text \<open>
  Modelled from the spec: \<open>dq_name\<close> and \<open>xq_name\<close> (module \<open>..common\<close> is missing).
  The specification gives the naming convention: delay queue \<open><queue>.DQ\<close>, dead-letter
  queue \<open><queue>.XQ\<close>.
\<close>

definition dq_name :: "string \<Rightarrow> string" where
  "dq_name q = q @ ''.DQ''"

definition xq_name :: "string \<Rightarrow> string" where
  "xq_name q = q @ ''.XQ''"

section \<open>The wire encoding\<close>

text \<open>
  Modelled from the spec: \<open>Message.encode\<close> and \<open>Message.decode\<close> (module \<open>..message\<close>
  is missing). The specification asks for a self-describing structured encoding of
  \<open>{message_id, actor_name, queue_name, args, kwargs, options}\<close>. The model writes a
  message as a dictionary of its six named fields; every value starts with a tag
  character that names its kind, integers and lengths are decimal, strings carry their
  length, lists and dictionaries are closed by \<open>e\<close>.
\<close>

fun encode_nat :: "nat \<Rightarrow> string" where
  "encode_nat n =
     (if n < 10 then [char_of (48 + n)]
      else encode_nat (n div 10) @ [char_of (48 + n mod 10)])"

declare encode_nat.simps [simp del]

definition encode_key :: "string \<Rightarrow> string" where
  "encode_key k = encode_nat (length k) @ '':'' @ k"

fun encode_value :: "pyval \<Rightarrow> string" where
  "encode_value PNone = ''n''"
| "encode_value (PBool b) = (if b then ''t'' else ''f'')"
| "encode_value (PInt i) =
     ''i'' @ (if i < 0 then ''-'' else '''') @ encode_nat (nat \<bar>i\<bar>) @ ''e''"
| "encode_value (PStr s) = ''s'' @ encode_key s"
| "encode_value (PList vs) = ''l'' @ concat (map encode_value vs) @ ''e''"
| "encode_value (PDict kvs) =
     ''d'' @ concat (map (\<lambda>(k, v). encode_key k @ encode_value v) kvs) @ ''e''"

definition asdict :: "message \<Rightarrow> pydict" where
  "asdict m =
     [(''queue_name'', PStr (queue_name m)),
      (''actor_name'', PStr (actor_name m)),
      (''args'', PList (args m)),
      (''kwargs'', PDict (kwargs m)),
      (''options'', PDict (options m)),
      (''message_id'', PStr (message_id m))]"

definition encode :: "message \<Rightarrow> string" where
  "encode m = encode_value (PDict (asdict m))"

definition is_digit :: "char \<Rightarrow> bool" where
  "is_digit c = (48 \<le> (of_char c :: nat) \<and> (of_char c :: nat) \<le> 57)"

fun decode_digits :: "nat \<Rightarrow> string \<Rightarrow> nat \<times> string" where
  "decode_digits acc [] = (acc, [])"
| "decode_digits acc (c # cs) =
     (if is_digit c then decode_digits (acc * 10 + (of_char c - 48)) cs
      else (acc, c # cs))"

definition decode_nat :: "string \<Rightarrow> (nat \<times> string) option" where
  "decode_nat cs =
     (case cs of
        [] \<Rightarrow> None
      | c # _ \<Rightarrow> if is_digit c then Some (decode_digits 0 cs) else None)"

definition decode_key :: "string \<Rightarrow> (string \<times> string) option" where
  "decode_key cs =
     (case decode_nat cs of
        None \<Rightarrow> None
      | Some (n, r) \<Rightarrow>
          (case r of
             [] \<Rightarrow> None
           | c # r' \<Rightarrow>
               if c = CHR '':'' \<and> n \<le> length r' then Some (take n r', drop n r')
               else None))"

definition expect_end :: "(nat \<times> string) option \<Rightarrow> (nat \<times> string) option" where
  "expect_end p =
     (case p of
        None \<Rightarrow> None
      | Some (n, r) \<Rightarrow>
          (case r of
             [] \<Rightarrow> None
           | c # r' \<Rightarrow> if c = CHR ''e'' then Some (n, r') else None))"

definition decode_int :: "string \<Rightarrow> (int \<times> string) option" where
  "decode_int cs =
     (case cs of
        [] \<Rightarrow> None
      | c # r \<Rightarrow>
          if c = CHR ''-'' then map_option (\<lambda>(n, r'). (- int n, r')) (expect_end (decode_nat r))
          else map_option (\<lambda>(n, r'). (int n, r')) (expect_end (decode_nat cs)))"

text \<open>
  The decoder descends into lists and dictionaries; its first argument bounds the
  nesting and the number of elements read, and \<open>decode\<close> starts it with the length of the
  body, which no encoded body exceeds.
\<close>

fun decode_value :: "nat \<Rightarrow> string \<Rightarrow> (pyval \<times> string) option"
  and decode_list :: "nat \<Rightarrow> string \<Rightarrow> (pyval list \<times> string) option"
  and decode_dict :: "nat \<Rightarrow> string \<Rightarrow> (pydict \<times> string) option"
where
  "decode_value 0 cs = None"
| "decode_value (Suc n) [] = None"
| "decode_value (Suc n) (c # cs) =
     (if c = CHR ''n'' then Some (PNone, cs)
      else if c = CHR ''t'' then Some (PBool True, cs)
      else if c = CHR ''f'' then Some (PBool False, cs)
      else if c = CHR ''i'' then map_option (\<lambda>(i, r). (PInt i, r)) (decode_int cs)
      else if c = CHR ''s'' then map_option (\<lambda>(s, r). (PStr s, r)) (decode_key cs)
      else if c = CHR ''l'' then map_option (\<lambda>(vs, r). (PList vs, r)) (decode_list n cs)
      else if c = CHR ''d'' then map_option (\<lambda>(kvs, r). (PDict kvs, r)) (decode_dict n cs)
      else None)"
| "decode_list 0 cs = None"
| "decode_list (Suc n) [] = None"
| "decode_list (Suc n) (c # cs) =
     (if c = CHR ''e'' then Some ([], cs)
      else
        (case decode_value n (c # cs) of
           None \<Rightarrow> None
         | Some (v, r) \<Rightarrow>
             (case decode_list n r of
                None \<Rightarrow> None
              | Some (vs, r') \<Rightarrow> Some (v # vs, r'))))"
| "decode_dict 0 cs = None"
| "decode_dict (Suc n) [] = None"
| "decode_dict (Suc n) (c # cs) =
     (if c = CHR ''e'' then Some ([], cs)
      else
        (case decode_key (c # cs) of
           None \<Rightarrow> None
         | Some (k, r) \<Rightarrow>
             (case decode_value n r of
                None \<Rightarrow> None
              | Some (v, r') \<Rightarrow>
                  (case decode_dict n r' of
                     None \<Rightarrow> None
                   | Some (kvs, r'') \<Rightarrow> Some ((k, v) # kvs, r'')))))"

section \<open>Exceptions\<close>

text \<open>
  The exception classes the adapter raises, catches or lets through. \<open>AMQPError\<close> stands
  for a subclass of \<open>amqpstorm.AMQPError\<close> that is neither a connection nor a channel
  error, \<open>OtherException\<close> for any other subclass of \<open>Exception\<close>. Exceptions outside
  \<open>Exception\<close> (an interrupt, an exit request) are not modelled.
\<close>

datatype exn =
    AMQPConnectionError
  | AMQPChannelError
  | AMQPError
  | AttributeError
  | OtherException
  | DecodeError
  | ValueError string
  | ActorNotFound string
  | ConnectionClosed exn
  | QueueJoinTimeout string

text \<open>\<open>isinstance(e, AMQPError)\<close>: the base class and its two subclasses.\<close>

definition isinstance_AMQPError :: "exn \<Rightarrow> bool" where
  "isinstance_AMQPError e =
     (e = AMQPConnectionError \<or> e = AMQPChannelError \<or> e = AMQPError)"

text \<open>The class pair of \<open>except (AMQPConnectionError, AMQPChannelError)\<close>.\<close>

definition connection_or_channel_error :: "exn \<Rightarrow> bool" where
  "connection_or_channel_error e = (e = AMQPConnectionError \<or> e = AMQPChannelError)"

text \<open>
  Modelled from the spec: \<open>Message.decode\<close>, the inverse of \<open>encode\<close>: the body must be
  one dictionary that holds the six fields with values of the right kind, and nothing
  after it.
\<close>

definition fromdict :: "pydict \<Rightarrow> exn + message" where
  "fromdict d =
     (case (map_of d ''queue_name'', map_of d ''actor_name'', map_of d ''args'',
            map_of d ''kwargs'', map_of d ''options'', map_of d ''message_id'') of
        (Some (PStr q), Some (PStr a), Some (PList xs), Some (PDict kw), Some (PDict opts),
         Some (PStr i)) \<Rightarrow>
          Inr \<lparr>queue_name = q, actor_name = a, args = xs, kwargs = kw, options = opts,
               message_id = i\<rparr>
      | _ \<Rightarrow> Inl DecodeError)"

definition decode :: "string \<Rightarrow> exn + message" where
  "decode data =
     (case decode_value (length data) data of
        Some (PDict d, []) \<Rightarrow> fromdict d
      | _ \<Rightarrow> Inl DecodeError)"

text \<open>
  Equality of messages as the specification reads it: field by field, the options compared as
  mappings, so that the order of the option keys does not count.
\<close>

definition message_equal :: "message \<Rightarrow> message \<Rightarrow> bool" where
  "message_equal m m' =
     (message_id m = message_id m' \<and> actor_name m = actor_name m' \<and>
      queue_name m = queue_name m' \<and> args m = args m' \<and> kwargs m = kwargs m' \<and>
      map_of (options m) = map_of (options m'))"

section \<open>The broker client library as an environment\<close>

text \<open>
  The adapter talks to \<open>amqpstorm\<close>, to the clock and to \<open>time.sleep\<close>. Each such call
  is an event appended to a trace. What a call answers is not the adapter's to decide:
  the environment holds, for every position of the trace, the reply of the call made
  there (a value or a raised exception), whether a handle reads as closed there, and
  what the two clocks show there. Python's floats are the rationals that the platform
  can represent; a float operation yields the exact result rounded, and how the
  platform rounds is the environment's \<open>float_round\<close>. Every theorem of the general
  development holds for all environments.
\<close>

record properties =
  delivery_mode :: int
  priority :: pyval

datatype event =
    UriConnection string
  | ConnectionChannel nat
  | ConfirmDeliveries nat
  | QueueDeclare nat string bool pydict
  | BasicPublish nat string string string properties
  | BasicQos nat int
  | BasicConsume nat string bool
  | QueuePurge nat string
  | ChannelClose nat
  | ConnectionClose nat
  | MessageAck nat
  | MessageNack nat bool
  | Sleep rat

datatype reply = Ok nat | Raise exn

record world =
  replies :: "nat \<Rightarrow> reply"
  is_closed :: "nat \<Rightarrow> nat \<Rightarrow> bool"
  monotonic :: "nat \<Rightarrow> rat"
  millis :: "nat \<Rightarrow> int"
  float_round :: "rat \<Rightarrow> rat"
  trace :: "event list"

text \<open>A call of the client library: the event is recorded, the environment replies.\<close>

definition call :: "event \<Rightarrow> world \<Rightarrow> reply \<times> world" where
  "call ev w = (replies w (length (trace w)), w\<lparr>trace := trace w @ [ev]\<rparr>)"

text \<open>\<open>x is None or x.is_closed\<close>, for a cached connection or channel.\<close>

definition none_or_closed :: "nat option \<Rightarrow> world \<Rightarrow> bool" where
  "none_or_closed h w =
     (case h of None \<Rightarrow> True | Some x \<Rightarrow> is_closed w (length (trace w)) x)"

text \<open>\<open>time.monotonic()\<close> in seconds and \<open>current_millis()\<close> in milliseconds.\<close>

definition time_monotonic :: "world \<Rightarrow> rat" where
  "time_monotonic w = monotonic w (length (trace w))"

definition current_millis :: "world \<Rightarrow> int" where
  "current_millis w = millis w (length (trace w))"

text \<open>The events of \<open>w'\<close> that \<open>w\<close> did not have yet.\<close>

definition new_events :: "world \<Rightarrow> world \<Rightarrow> event list" where
  "new_events w w' = drop (length (trace w)) (trace w')"

section \<open>The broker\<close>

text \<open>
  \<open>Actor\<close> and the base class \<open>Broker\<close> are imported from modules that are not among the
  source files. Of an actor the adapter reads only its options. Of the base class it uses
  \<open>actors\<close>, \<open>delay_queues\<close>, \<open>get_actor\<close>, \<open>emit_before\<close> and \<open>emit_after\<close>.
\<close>

record actor =
  actor_options :: pydict

datatype signal =
    BeforeDeclareQueue string
  | AfterDeclareQueue string
  | AfterDeclareDelayQueue string
  | BeforeEnqueue message "int option"
  | AfterEnqueue message "int option"

text \<open>
  The attributes of a \<open>RabbitmqBroker\<close>. \<open>priv_connection\<close> is \<open>self._connection\<close> and
  \<open>state_channel\<close> is \<open>self.state.channel\<close>, the channel of the calling thread (the model
  follows one thread). The two sets of queue names are lists without repetition, in
  the order of insertion. \<open>emitted\<close> records the signals handed to the middleware chain.
  A connection or channel is named by the position of the call that created it.
\<close>

record broker =
  url :: string
  confirm_delivery :: bool
  max_priority :: "int option"
  priv_connection :: "nat option"
  queues :: "string list"
  state_channel :: "nat option"
  queues_declared :: bool
  delay_queues :: "string list"
  actors :: "string \<rightharpoonup> actor"
  emitted :: "signal list"

type_synonym 'a result = "(exn + 'a) \<times> broker \<times> world"

text \<open>Sequencing: an exception ends the computation with the state reached so far.\<close>

definition and_then ::
  "'a result \<Rightarrow> ('a \<Rightarrow> broker \<Rightarrow> world \<Rightarrow> 'b result) \<Rightarrow> 'b result" where
  "and_then r f = (case r of (Inl e, b, w) \<Rightarrow> (Inl e, b, w) | (Inr a, b, w) \<Rightarrow> f a b w)"

text \<open>
  Modelled from the spec: \<open>Broker.emit_before\<close> and \<open>Broker.emit_after\<close> (module
  \<open>..broker\<close> is missing). The specification treats the middleware chain as a fixed list
  of lifecycle callbacks whose failures are caught and logged; emitting records the
  signal and cannot fail.
\<close>

definition emit :: "signal \<Rightarrow> broker \<Rightarrow> broker" where
  "emit s b = b\<lparr>emitted := emitted b @ [s]\<rparr>"

definition DEAD_MESSAGE_TTL :: int where
  "DEAD_MESSAGE_TTL = 86400000 * 7"

definition MAX_ENQUEUE_ATTEMPTS :: nat where
  "MAX_ENQUEUE_ATTEMPTS = 6"

text \<open>
  \<open>RabbitmqBroker.__init__\<close>. \<open>url or ''\<close> turns a missing URL into the empty string.
  The base class initialiser (missing) sets up \<open>actors\<close> and \<open>delay_queues\<close>, both
  empty; the middleware list is not modelled.
\<close>

definition RabbitmqBroker_init ::
  "bool \<Rightarrow> string option \<Rightarrow> int option \<Rightarrow> exn + broker" where
  "RabbitmqBroker_init confirm url_arg max_prio =
     (if max_prio \<noteq> None \<and> \<not> (0 < the max_prio \<and> the max_prio \<le> 255)
      then Inl (ValueError ''max_priority must be a value between 0 and 255'')
      else Inr \<lparr>url = (case url_arg of None \<Rightarrow> [] | Some u \<Rightarrow> u),
                confirm_delivery = confirm,
                max_priority = max_prio,
                priv_connection = None,
                queues = [],
                state_channel = None,
                queues_declared = False,
                delay_queues = [],
                actors = Map.empty,
                emitted = []\<rparr>)"

text \<open>The property \<open>connection\<close>: the cached connection, or a new one when there is none
  or it reads as closed.\<close>

definition connection :: "broker \<Rightarrow> world \<Rightarrow> nat result" where
  "connection b w =
     (if none_or_closed (priv_connection b) w then
        (case call (UriConnection (url b)) w of
           (Raise e, w') \<Rightarrow> (Inl e, b, w')
         | (Ok _, w') \<Rightarrow>
             (Inr (length (trace w)), b\<lparr>priv_connection := Some (length (trace w))\<rparr>, w'))
      else (Inr (the (priv_connection b)), b, w))"

text \<open>\<open>del self.connection\<close>: close it, swallowing \<open>AMQPError\<close>, and forget it.\<close>

definition del_connection :: "broker \<Rightarrow> world \<Rightarrow> unit result" where
  "del_connection b w =
     (case priv_connection b of
        None \<Rightarrow> (Inr (), b\<lparr>priv_connection := None\<rparr>, w)
      | Some c \<Rightarrow>
          (case call (ConnectionClose c) w of
             (Raise e, w') \<Rightarrow>
               if isinstance_AMQPError e then (Inr (), b\<lparr>priv_connection := None\<rparr>, w')
               else (Inl e, b, w')
           | (Ok _, w') \<Rightarrow> (Inr (), b\<lparr>priv_connection := None\<rparr>, w')))"

text \<open>
  The body of the \<open>if\<close> in the property \<open>channel\<close>, from the connection on: a new
  channel, put into confirm mode when \<open>confirm_delivery\<close> is set, then cached for the
  thread.
\<close>

definition new_channel :: "nat \<Rightarrow> broker \<Rightarrow> world \<Rightarrow> nat result" where
  "new_channel c b w =
     (case call (ConnectionChannel c) w of
        (Raise e, w1) \<Rightarrow> (Inl e, b, w1)
      | (Ok _, w1) \<Rightarrow>
          if confirm_delivery b then
            (case call (ConfirmDeliveries (length (trace w))) w1 of
               (Raise e, w2) \<Rightarrow> (Inl e, b, w2)
             | (Ok _, w2) \<Rightarrow>
                 (Inr (length (trace w)), b\<lparr>state_channel := Some (length (trace w))\<rparr>, w2))
          else (Inr (length (trace w)), b\<lparr>state_channel := Some (length (trace w))\<rparr>, w1))"

text \<open>The property \<open>channel\<close>: the thread's cached channel, or a new one on the current
  connection when there is none or it reads as closed.\<close>

definition channel :: "broker \<Rightarrow> world \<Rightarrow> nat result" where
  "channel b w =
     (if none_or_closed (state_channel b) w then and_then (connection b w) new_channel
      else (Inr (the (state_channel b)), b, w))"

text \<open>
  \<open>del self.channel\<close>. With no channel attribute the \<open>AttributeError\<close> is swallowed. An
  \<open>AMQPError\<close> of \<open>close()\<close> is swallowed and the attribute deleted; an \<open>AttributeError\<close>
  of \<open>close()\<close> reaches the outer handler, which leaves the attribute in place; any
  other exception propagates. A channel object is truthy.
\<close>

definition del_channel :: "broker \<Rightarrow> world \<Rightarrow> unit result" where
  "del_channel b w =
     (case state_channel b of
        None \<Rightarrow> (Inr (), b, w)
      | Some ch \<Rightarrow>
          (case call (ChannelClose ch) w of
             (Raise e, w') \<Rightarrow>
               if isinstance_AMQPError e then (Inr (), b\<lparr>state_channel := None\<rparr>, w')
               else if e = AttributeError then (Inr (), b, w')
               else (Inl e, b, w')
           | (Ok _, w') \<Rightarrow> (Inr (), b\<lparr>state_channel := None\<rparr>, w')))"

text \<open>\<open>self.channel.<method>(...)\<close>: obtain the channel, make the call on it, return
  what the reply carries.\<close>

definition channel_call :: "(nat \<Rightarrow> event) \<Rightarrow> broker \<Rightarrow> world \<Rightarrow> nat result" where
  "channel_call f b w =
     and_then (channel b w) (\<lambda>ch b1 w1.
       (case call (f ch) w1 of
          (Raise e, w2) \<Rightarrow> (Inl e, b1, w2)
        | (Ok n, w2) \<Rightarrow> (Inr n, b1, w2)))"

subsection \<open>Queue declaration\<close>

text \<open>\<open>declare_queue\<close>: bookkeeping and signals only; the world is handed back as it
  came.\<close>

definition declare_queue :: "broker \<Rightarrow> world \<Rightarrow> string \<Rightarrow> broker \<times> world" where
  "declare_queue b w q =
     (if q \<notin> set (queues b) then
        (let b1 = emit (BeforeDeclareQueue q) b;
             b2 = b1\<lparr>queues := queues b1 @ [q]\<rparr>;
             b3 = emit (AfterDeclareQueue q) b2;
             delayed_name = dq_name q;
             b4 = b3\<lparr>delay_queues :=
                     (if delayed_name \<in> set (delay_queues b3) then delay_queues b3
                      else delay_queues b3 @ [delayed_name])\<rparr>
         in (emit (AfterDeclareDelayQueue delayed_name) b4, w))
      else (b, w))"

text \<open>\<open>_build_queue_arguments\<close>; \<open>if self.max_priority\<close> is false for \<open>None\<close> and for 0.\<close>

definition priv_build_queue_arguments :: "broker \<Rightarrow> string \<Rightarrow> pydict" where
  "priv_build_queue_arguments b q =
     [(''x-dead-letter-exchange'', PStr []),
      (''x-dead-letter-routing-key'', PStr (xq_name q))] @
     (case max_priority b of
        None \<Rightarrow> []
      | Some p \<Rightarrow> if p \<noteq> 0 then [(''x-max-priority'', PInt p)] else [])"

text \<open>\<open>_declare_queue\<close>, \<open>_declare_dq_queue\<close>, \<open>_declare_xq_queue\<close>; each returns the
  \<open>message_count\<close> of the broker's answer.\<close>

definition priv_declare_queue :: "broker \<Rightarrow> world \<Rightarrow> string \<Rightarrow> nat result" where
  "priv_declare_queue b w q =
     channel_call (\<lambda>ch. QueueDeclare ch q True (priv_build_queue_arguments b q)) b w"

definition priv_declare_dq_queue :: "broker \<Rightarrow> world \<Rightarrow> string \<Rightarrow> nat result" where
  "priv_declare_dq_queue b w q =
     channel_call (\<lambda>ch. QueueDeclare ch (dq_name q) True (priv_build_queue_arguments b q)) b w"

definition priv_declare_xq_queue :: "broker \<Rightarrow> world \<Rightarrow> string \<Rightarrow> nat result" where
  "priv_declare_xq_queue b w q =
     channel_call (\<lambda>ch. QueueDeclare ch (xq_name q) True
                          [(''x-message-ttl'', PInt DEAD_MESSAGE_TTL)]) b w"

text \<open>\<open>_declare_rabbitmq_queues\<close>: the loop over \<open>self.queues\<close>.\<close>

fun declare_each :: "string list \<Rightarrow> broker \<Rightarrow> world \<Rightarrow> unit result" where
  "declare_each [] b w = (Inr (), b, w)"
| "declare_each (q # qs) b w =
     and_then (priv_declare_queue b w q) (\<lambda>_ b1 w1.
       and_then (priv_declare_dq_queue b1 w1 q) (\<lambda>_ b2 w2.
         and_then (priv_declare_xq_queue b2 w2 q) (\<lambda>_ b3 w3.
           declare_each qs b3 w3)))"

definition priv_declare_rabbitmq_queues :: "broker \<Rightarrow> world \<Rightarrow> unit result" where
  "priv_declare_rabbitmq_queues b w = declare_each (queues b) b w"

subsection \<open>Enqueue\<close>

text \<open>
  The body of the \<open>try\<close> in \<open>enqueue\<close>: declare the topology unless the flag says it was
  done, set the flag, emit \<open>before_enqueue\<close>, publish on the default exchange, emit
  \<open>after_enqueue\<close>, return the message. (The debug log line is not modelled.)
\<close>

definition enqueue_attempt ::
  "broker \<Rightarrow> world \<Rightarrow> string \<Rightarrow> message \<Rightarrow> int option \<Rightarrow> properties \<Rightarrow> message result" where
  "enqueue_attempt b w qn m delay props =
     and_then
       (if \<not> queues_declared b then
          and_then (priv_declare_rabbitmq_queues b w) (\<lambda>_ b1 w1.
            (Inr (), b1\<lparr>queues_declared := True\<rparr>, w1))
        else (Inr (), b, w))
       (\<lambda>_ b1 w1.
          and_then
            (channel_call (\<lambda>ch. BasicPublish ch [] qn (encode m) props)
               (emit (BeforeEnqueue m delay) b1) w1)
            (\<lambda>_ b2 w2. (Inr m, emit (AfterEnqueue m delay) b2, w2)))"

text \<open>
  The \<open>except (AMQPConnectionError, AMQPChannelError)\<close> clause up to the attempt count:
  a connection error deletes the connection, a channel error deletes the channel.
\<close>

definition enqueue_recover :: "exn \<Rightarrow> broker \<Rightarrow> world \<Rightarrow> unit result" where
  "enqueue_recover e b w =
     (if e = AMQPConnectionError then del_connection b w else del_channel b w)"

text \<open>
  The \<open>while True\<close> loop. \<open>attempts\<close> starts at 1 and grows by one per handled failure;
  the loop ends with the message, with \<open>ConnectionClosed\<close> once \<open>attempts\<close> exceeds
  \<open>MAX_ENQUEUE_ATTEMPTS\<close>, or with an exception that the clause does not catch.
\<close>

function enqueue_loop ::
  "nat \<Rightarrow> broker \<Rightarrow> world \<Rightarrow> string \<Rightarrow> message \<Rightarrow> int option \<Rightarrow> properties \<Rightarrow> message result"
where
  "enqueue_loop attempts b w qn m delay props =
     (case enqueue_attempt b w qn m delay props of
        (Inr r, b1, w1) \<Rightarrow> (Inr r, b1, w1)
      | (Inl e, b1, w1) \<Rightarrow>
          if connection_or_channel_error e then
            (case enqueue_recover e b1 w1 of
               (Inl e', b2, w2) \<Rightarrow> (Inl e', b2, w2)
             | (Inr _, b2, w2) \<Rightarrow>
                 if attempts + 1 > MAX_ENQUEUE_ATTEMPTS
                 then (Inl (ConnectionClosed e), b2, w2)
                 else enqueue_loop (attempts + 1) b2 w2 qn m delay props)
          else (Inl e, b1, w1))"
  by pat_completeness auto
termination
  by (relation "measure (\<lambda>(attempts, b, w, qn, m, delay, props).
        Suc MAX_ENQUEUE_ATTEMPTS - attempts)") auto

declare enqueue_loop.simps [simp del]

text \<open>
  Modelled from the spec: \<open>Broker.get_actor\<close> (module \<open>..broker\<close> is missing): the actor
  registered under the name, \<open>ActorNotFound\<close> when there is none.
\<close>

definition get_actor :: "broker \<Rightarrow> string \<Rightarrow> exn + actor" where
  "get_actor b name =
     (case actors b name of None \<Rightarrow> Inl (ActorNotFound name) | Some a \<Rightarrow> Inr a)"

text \<open>The \<open>properties\<close> dictionary of \<open>enqueue\<close>.\<close>

definition publish_properties :: "message \<Rightarrow> actor \<Rightarrow> properties" where
  "publish_properties m a =
     \<lparr>delivery_mode = 2,
      priority = dict_get (options m) ''priority'' (dict_get (actor_options a) ''priority'' PNone)\<rparr>"

text \<open>
  The locals \<open>queue_name\<close> and \<open>message\<close> of \<open>enqueue\<close> after the \<open>if delay is not None\<close>
  block: with a delay the target is the delay queue and the message is a copy that is
  addressed to it and stamped with \<open>eta\<close>, the current time plus the delay.
\<close>

definition delayed_queue_name :: "message \<Rightarrow> int option \<Rightarrow> string" where
  "delayed_queue_name m delay =
     (case delay of None \<Rightarrow> queue_name m | Some d \<Rightarrow> dq_name (queue_name m))"

definition delayed_message :: "message \<Rightarrow> int option \<Rightarrow> world \<Rightarrow> message" where
  "delayed_message m delay w =
     (case delay of
        None \<Rightarrow> m
      | Some d \<Rightarrow>
          copy m (dq_name (queue_name m)) [(''eta'', PInt (current_millis w + d))])"

definition enqueue :: "broker \<Rightarrow> world \<Rightarrow> message \<Rightarrow> int option \<Rightarrow> message result" where
  "enqueue b w m delay =
     (case get_actor b (actor_name m) of
        Inl e \<Rightarrow> (Inl e, b, w)
      | Inr a \<Rightarrow>
          enqueue_loop 1 b w (delayed_queue_name m delay) (delayed_message m delay w) delay
            (publish_properties m a))"

subsection \<open>Queue depths and join\<close>

definition get_queue_message_counts ::
  "broker \<Rightarrow> world \<Rightarrow> string \<Rightarrow> (nat \<times> nat \<times> nat) result" where
  "get_queue_message_counts b w q =
     and_then (priv_declare_queue b w q) (\<lambda>n b1 w1.
       and_then (priv_declare_dq_queue b1 w1 q) (\<lambda>dn b2 w2.
         and_then (priv_declare_xq_queue b2 w2 q) (\<lambda>xn b3 w3.
           (Inr (n, dn, xn), b3, w3))))"

text \<open>
  \<open>deadline = timeout and time.monotonic() + timeout / 1000\<close>: \<open>None\<close> stays \<open>None\<close>, 0
  stays 0 (the clock is not read), any other timeout gives a point in time. The
  division of the integer by 1000 and the sum are float operations: each is the exact
  result, rounded.
\<close>

definition join_deadline :: "int option \<Rightarrow> world \<Rightarrow> rat option" where
  "join_deadline timeout w =
     (case timeout of
        None \<Rightarrow> None
      | Some t \<Rightarrow>
          if t = 0 then Some 0
          else Some (float_round w (time_monotonic w + float_round w (of_int t / 1000))))"

text \<open>\<open>deadline and time.monotonic() >= deadline\<close>: \<open>None\<close> and 0 are false.\<close>

definition deadline_reached :: "rat option \<Rightarrow> world \<Rightarrow> bool" where
  "deadline_reached deadline w =
     (case deadline of
        None \<Rightarrow> False
      | Some d \<Rightarrow> d \<noteq> 0 \<and> time_monotonic w \<ge> d)"

text \<open>\<open>time.sleep(secs)\<close> refuses a negative length.\<close>

definition time_sleep :: "rat \<Rightarrow> broker \<Rightarrow> world \<Rightarrow> unit result" where
  "time_sleep secs b w =
     (if secs < 0 then (Inl (ValueError ''sleep length must be non-negative''), b, w)
      else (Inr (), b, w\<lparr>trace := trace w @ [Sleep secs]\<rparr>))"

text \<open>
  The \<open>while successes < min_successes\<close> loop of \<open>join\<close>. The loop need not end, so the
  first argument counts the iterations still allowed; \<open>None\<close> says they ran out.
  \<open>idle_time / 1000\<close> is a float division.
\<close>

fun join_loop ::
  "nat \<Rightarrow> broker \<Rightarrow> world \<Rightarrow> string \<Rightarrow> int \<Rightarrow> int \<Rightarrow> rat option \<Rightarrow> int \<Rightarrow> unit result option"
where
  "join_loop 0 b w q min_successes idle_time deadline successes =
     (if successes < min_successes then None else Some (Inr (), b, w))"
| "join_loop (Suc fuel) b w q min_successes idle_time deadline successes =
     (if successes < min_successes then
        if deadline_reached deadline w then Some (Inl (QueueJoinTimeout q), b, w)
        else
          (case get_queue_message_counts b w q of
             (Inl e, b1, w1) \<Rightarrow> Some (Inl e, b1, w1)
           | (Inr (n, dn, xn), b1, w1) \<Rightarrow>
               (case time_sleep (float_round w1 (of_int idle_time / 1000)) b1 w1 of
                  (Inl e, b2, w2) \<Rightarrow> Some (Inl e, b2, w2)
                | (Inr _, b2, w2) \<Rightarrow>
                    join_loop fuel b2 w2 q min_successes idle_time deadline
                      (if n + dn = 0 then successes + 1 else 0)))
      else Some (Inr (), b, w))"

definition join ::
  "nat \<Rightarrow> broker \<Rightarrow> world \<Rightarrow> string \<Rightarrow> int \<Rightarrow> int \<Rightarrow> int option \<Rightarrow> unit result option" where
  "join fuel b w q min_successes idle_time timeout =
     join_loop fuel b w q min_successes idle_time (join_deadline timeout w) 0"

section \<open>The consumer\<close>

text \<open>
  A \<open>_RabbitmqConsumer\<close>: its channel, its idle timeout and the warnings it has logged.
\<close>

record consumer =
  consumer_channel :: nat
  consumer_timeout :: int
  warnings :: "string list"

text \<open>An inbound message of the client library: its body and its delivery tag.\<close>

record amqp_message =
  body :: string
  delivery_tag :: nat

text \<open>
  What \<open>ack\<close> and \<open>nack\<close> may be handed. A \<open>_RabbitmqMessage\<close> holds the decoded message
  and the inbound message it wraps (of this consumer or another). Any other object is
  known by what calling its \<open>ack()\<close> and its \<open>nack(requeue)\<close> does: return, or raise an
  exception (an object without the method raises \<open>AttributeError\<close>).
\<close>

datatype handle =
    RabbitmqMessage message amqp_message
  | Foreign "exn option" "bool \<Rightarrow> exn option"

text \<open>\<open>_RabbitmqMessage.__init__\<close>: decode the body, keep the inbound message.\<close>

definition RabbitmqMessage_init :: "amqp_message \<Rightarrow> exn + handle" where
  "RabbitmqMessage_init am =
     (case decode (body am) of Inl e \<Rightarrow> Inl e | Inr m \<Rightarrow> Inr (RabbitmqMessage m am))"

text \<open>\<open>message.ack()\<close> and \<open>message.nack(requeue)\<close>; a \<open>_RabbitmqMessage\<close> passes the
  call on to the inbound message.\<close>

definition message_ack :: "handle \<Rightarrow> world \<Rightarrow> (exn + unit) \<times> world" where
  "message_ack h w =
     (case h of
        RabbitmqMessage m am \<Rightarrow>
          (case call (MessageAck (delivery_tag am)) w of
             (Raise e, w') \<Rightarrow> (Inl e, w')
           | (Ok _, w') \<Rightarrow> (Inr (), w'))
      | Foreign a n \<Rightarrow> (case a of Some e \<Rightarrow> (Inl e, w) | None \<Rightarrow> (Inr (), w)))"

definition message_nack :: "handle \<Rightarrow> bool \<Rightarrow> world \<Rightarrow> (exn + unit) \<times> world" where
  "message_nack h requeue w =
     (case h of
        RabbitmqMessage m am \<Rightarrow>
          (case call (MessageNack (delivery_tag am) requeue) w of
             (Raise e, w') \<Rightarrow> (Inl e, w')
           | (Ok _, w') \<Rightarrow> (Inr (), w'))
      | Foreign a n \<Rightarrow> (case n requeue of Some e \<Rightarrow> (Inl e, w) | None \<Rightarrow> (Inr (), w)))"

text \<open>\<open>_RabbitmqConsumer.ack\<close> and \<open>_RabbitmqConsumer.nack\<close>.\<close>

definition consumer_ack ::
  "consumer \<Rightarrow> handle \<Rightarrow> world \<Rightarrow> (exn + unit) \<times> consumer \<times> world" where
  "consumer_ack c h w =
     (case message_ack h w of
        (Inr _, w') \<Rightarrow> (Inr (), c, w')
      | (Inl e, w') \<Rightarrow>
          if connection_or_channel_error e then (Inl (ConnectionClosed e), c, w')
          else (Inr (), c\<lparr>warnings := warnings c @ [''Failed to ack message.'']\<rparr>, w'))"

definition consumer_nack ::
  "consumer \<Rightarrow> handle \<Rightarrow> world \<Rightarrow> (exn + unit) \<times> consumer \<times> world" where
  "consumer_nack c h w =
     (case message_nack h False w of
        (Inr _, w') \<Rightarrow> (Inr (), c, w')
      | (Inl e, w') \<Rightarrow>
          if connection_or_channel_error e then (Inl (ConnectionClosed e), c, w')
          else (Inr (), c\<lparr>warnings := warnings c @ [''Failed to nack message.'']\<rparr>, w'))"

text \<open>
  \<open>_RabbitmqConsumer.__init__\<close>: a channel of its own on the given connection, the
  prefetch limit, the subscription; a connection or channel error becomes
  \<open>ConnectionClosed\<close>.
\<close>

definition closed_if_amqp :: "exn \<Rightarrow> exn" where
  "closed_if_amqp e = (if connection_or_channel_error e then ConnectionClosed e else e)"

definition RabbitmqConsumer_init ::
  "nat \<Rightarrow> string \<Rightarrow> int \<Rightarrow> int \<Rightarrow> world \<Rightarrow> (exn + consumer) \<times> world" where
  "RabbitmqConsumer_init c q prefetch timeout w =
     (case call (ConnectionChannel c) w of
        (Raise e, w1) \<Rightarrow> (Inl (closed_if_amqp e), w1)
      | (Ok _, w1) \<Rightarrow>
          (case call (BasicQos (length (trace w)) prefetch) w1 of
             (Raise e, w2) \<Rightarrow> (Inl (closed_if_amqp e), w2)
           | (Ok _, w2) \<Rightarrow>
               (case call (BasicConsume (length (trace w)) q False) w2 of
                  (Raise e, w3) \<Rightarrow> (Inl (closed_if_amqp e), w3)
                | (Ok _, w3) \<Rightarrow>
                    (Inr \<lparr>consumer_channel = length (trace w), consumer_timeout = timeout,
                          warnings = []\<rparr>, w3))))"

text \<open>
  \<open>RabbitmqBroker.consume\<close>: declare the topology, unguarded; on a connection or
  channel error run the same either/or clean-up as \<open>enqueue\<close> and raise
  \<open>ConnectionClosed\<close>; otherwise return a consumer on the broker's connection.
\<close>

definition consume :: "broker \<Rightarrow> world \<Rightarrow> string \<Rightarrow> int \<Rightarrow> int \<Rightarrow> consumer result" where
  "consume b w q prefetch timeout =
     (case priv_declare_rabbitmq_queues b w of
        (Inl e, b1, w1) \<Rightarrow>
          if connection_or_channel_error e then
            (case enqueue_recover e b1 w1 of
               (Inl e', b2, w2) \<Rightarrow> (Inl e', b2, w2)
             | (Inr _, b2, w2) \<Rightarrow> (Inl (ConnectionClosed e), b2, w2))
          else (Inl e, b1, w1)
      | (Inr _, b1, w1) \<Rightarrow>
          and_then (connection b1 w1) (\<lambda>c b2 w2.
            (case RabbitmqConsumer_init c q prefetch timeout w2 of
               (Inl e, w3) \<Rightarrow> (Inl e, b2, w3)
             | (Inr cons, w3) \<Rightarrow> (Inr cons, b2, w3))))"

section \<open>Observations on states and traces\<close>

text \<open>
  The vocabulary of the theorems. \<open>grows w w'\<close>: the world \<open>w'\<close> is \<open>w\<close> after further
  events, under the same environment. \<open>same_config b b'\<close>: the two broker states differ
  at most in the cached connection and channel.
\<close>

definition grows :: "world \<Rightarrow> world \<Rightarrow> bool" where
  "grows w w' =
     (replies w' = replies w \<and> is_closed w' = is_closed w \<and> monotonic w' = monotonic w \<and>
      millis w' = millis w \<and> float_round w' = float_round w \<and>
      (\<exists>es. trace w' = trace w @ es))"

definition same_config :: "broker \<Rightarrow> broker \<Rightarrow> bool" where
  "same_config b b' =
     (url b' = url b \<and> confirm_delivery b' = confirm_delivery b \<and>
      max_priority b' = max_priority b \<and> queues b' = queues b \<and>
      queues_declared b' = queues_declared b \<and> delay_queues b' = delay_queues b \<and>
      actors b' = actors b \<and> emitted b' = emitted b)"

text \<open>Events of connection handling: opening and closing connections and channels.\<close>

fun plumbing :: "event \<Rightarrow> bool" where
  "plumbing (UriConnection u) = True"
| "plumbing (ConnectionChannel c) = True"
| "plumbing (ConfirmDeliveries c) = True"
| "plumbing (ChannelClose c) = True"
| "plumbing (ConnectionClose c) = True"
| "plumbing ev = False"

text \<open>The queue declarations of a trace, in order: name, durability, arguments.\<close>

fun declared :: "event list \<Rightarrow> (string \<times> bool \<times> pydict) list" where
  "declared [] = []"
| "declared (QueueDeclare ch q d a # es) = (q, d, a) # declared es"
| "declared (ev # es) = declared es"

text \<open>The publishes of a trace, in order: exchange, routing key, body, properties.\<close>

fun published :: "event list \<Rightarrow> (string \<times> string \<times> string \<times> properties) list" where
  "published [] = []"
| "published (BasicPublish ch ex rk bd props # es) = (ex, rk, bd, props) # published es"
| "published (ev # es) = published es"

text \<open>The three declarations that back one logical queue.\<close>

definition topology :: "broker \<Rightarrow> string \<Rightarrow> (string \<times> bool \<times> pydict) list" where
  "topology b q =
     [(q, True, priv_build_queue_arguments b q),
      (dq_name q, True, priv_build_queue_arguments b q),
      (xq_name q, True, [(''x-message-ttl'', PInt DEAD_MESSAGE_TTL)])]"

text \<open>
  An environment in which every call succeeds and answers 0, nothing reads as closed,
  both clocks stand at 0 and float operations are exact; and a broker as constructed
  with default arguments.
\<close>

definition quiet_world :: world where
  "quiet_world =
     \<lparr>replies = (\<lambda>_. Ok 0), is_closed = (\<lambda>_ _. False), monotonic = (\<lambda>_. 0),
      millis = (\<lambda>_. 0), float_round = (\<lambda>x. x), trace = []\<rparr>"

definition fresh_broker :: broker where
  "fresh_broker =
     \<lparr>url = [], confirm_delivery = False, max_priority = None, priv_connection = None,
      queues = [], state_channel = None, queues_declared = False, delay_queues = [],
      actors = Map.empty, emitted = []\<rparr>"

text \<open>
  \<open>same_setup b b'\<close>: the two broker states agree on what construction and declaration
  fixed: URL, confirm mode, priority ceiling, queue names and actors.
\<close>

definition same_setup :: "broker \<Rightarrow> broker \<Rightarrow> bool" where
  "same_setup b b' =
     (url b' = url b \<and> confirm_delivery b' = confirm_delivery b \<and>
      max_priority b' = max_priority b \<and> queues b' = queues b \<and>
      delay_queues b' = delay_queues b \<and> actors b' = actors b)"

text \<open>
  One pass of the loop of \<open>enqueue\<close> that ends in the \<open>except\<close> clause: the attempt
  raises a connection or channel error and the clause completes; the result is that
  error and the state from which the next pass, if any, starts.
\<close>

definition failed_attempt ::
  "broker \<Rightarrow> world \<Rightarrow> string \<Rightarrow> message \<Rightarrow> int option \<Rightarrow> properties \<Rightarrow>
   (exn \<times> broker \<times> world) option" where
  "failed_attempt b w qn m delay props =
     (case enqueue_attempt b w qn m delay props of
        (Inr r, b1, w1) \<Rightarrow> None
      | (Inl e, b1, w1) \<Rightarrow>
          if connection_or_channel_error e then
            (case enqueue_recover e b1 w1 of
               (Inl e', b2, w2) \<Rightarrow> None
             | (Inr u, b2, w2) \<Rightarrow> Some (e, b2, w2))
          else None)"

text \<open>\<open>n\<close> such passes in a row, each starting where the one before ended.\<close>

fun failed_attempts ::
  "nat \<Rightarrow> exn \<Rightarrow> broker \<Rightarrow> world \<Rightarrow> string \<Rightarrow> message \<Rightarrow> int option \<Rightarrow> properties \<Rightarrow>
   (exn \<times> broker \<times> world) option" where
  "failed_attempts 0 e b w qn m delay props = Some (e, b, w)"
| "failed_attempts (Suc n) e b w qn m delay props =
     (case failed_attempt b w qn m delay props of
        None \<Rightarrow> None
      | Some (e', b', w') \<Rightarrow> failed_attempts n e' b' w' qn m delay props)"

text \<open>
  Example states for the closed theorems: an environment in which every queue always
  reports one message, the monotonic clock shows the number of events so far, in
  seconds, and float operations are exact; a message with a priority; a broker that has one actor and its queue
  declared.
\<close>

definition busy_world :: world where
  "busy_world =
     \<lparr>replies = (\<lambda>_. Ok 1), is_closed = (\<lambda>_ _. False), monotonic = (\<lambda>k. of_nat k),
      millis = (\<lambda>_. 0), float_round = (\<lambda>x. x), trace = []\<rparr>"

definition example_message :: message where
  "example_message =
     \<lparr>queue_name = ''default'', actor_name = ''add'', args = [PInt 1, PInt 2], kwargs = [],
      options = [(''priority'', PInt 5)], message_id = ''id-1''\<rparr>"

definition example_actor :: actor where
  "example_actor = \<lparr>actor_options = [(''priority'', PInt 3)]\<rparr>"

definition example_broker :: broker where
  "example_broker =
     fresh_broker\<lparr>queues := [''default''], delay_queues := [''default.DQ''],
                   actors := [''add'' \<mapsto> example_actor]\<rparr>"

text \<open>
  What a run of the loop of \<open>enqueue\<close> from \<open>(b, w)\<close> to \<open>(b', w')\<close> with result \<open>r\<close> has
  done: every publish carries the same routing key, body and properties; a normal
  return hands back the message, ends with its publish and leaves the topology declared.
\<close>

definition loop_effect ::
  "broker \<Rightarrow> world \<Rightarrow> string \<Rightarrow> message \<Rightarrow> properties \<Rightarrow> (exn + message) \<Rightarrow> broker \<Rightarrow> world \<Rightarrow> bool"
where
  "loop_effect b w qn m props r b' w' =
     (grows w w' \<and> same_setup b b' \<and>
      (queues_declared b \<longrightarrow> queues_declared b' \<and> declared (new_events w w') = []) \<and>
      (\<forall>p \<in> set (published (new_events w w')). p = ([], qn, encode m, props)) \<and>
      (\<forall>x. r = Inr x \<longrightarrow>
         x = m \<and> queues_declared b' \<and> published (new_events w w') \<noteq> [] \<and>
         (\<exists>pre ch. new_events w w' = pre @ [BasicPublish ch [] qn (encode m) props]) \<and>
         (\<not> queues_declared b \<longrightarrow>
            (\<exists>pre. declared (new_events w w') = pre @ concat (map (topology b) (queues b))))))"

text \<open>
  The example broker with its topology declared, once without and once with an open
  connection (0) and a cached channel (1); and an environment in which every call
  raises a connection error.
\<close>

definition declared_broker :: broker where
  "declared_broker = example_broker\<lparr>queues_declared := True\<rparr>"

definition connected_broker :: broker where
  "connected_broker =
     example_broker\<lparr>queues_declared := True, priv_connection := Some 0,
                     state_channel := Some 1\<rparr>"

definition dead_world :: world where
  "dead_world = quiet_world\<lparr>replies := (\<lambda>_. Raise AMQPConnectionError)\<rparr>"




text \<open>
  A consumer on channel 2, an object whose \<open>ack\<close> and \<open>nack\<close> just return (the \<open>Mock\<close> of the
  test suite), an object that has neither method, and a message of some other consumer.
\<close>

definition example_consumer :: consumer where
  "example_consumer = \<lparr>consumer_channel = 2, consumer_timeout = 5000, warnings = []\<rparr>"

definition mock_handle :: handle where
  "mock_handle = Foreign None (\<lambda>_. None)"

definition plain_object :: handle where
  "plain_object = Foreign (Some AttributeError) (\<lambda>_. Some AttributeError)"

definition other_message :: handle where
  "other_message = RabbitmqMessage example_message \<lparr>body = encode example_message, delivery_tag = 7\<rparr>"

definition closed_channel_world :: world where
  "closed_channel_world = quiet_world\<lparr>replies := (\<lambda>_. Raise AMQPChannelError)\<rparr>"

text \<open>
  What \<open>join\<close> can observe of a run: the depth that each answered queue declaration
  reported, and the sleeps, in order. The first argument is the environment's replies,
  the second the position of the first event. A quiet sample is one round of \<open>join\<close>
  that found the main and the delay queue empty and then slept for the given time.
\<close>

datatype observation = Depth string nat | Slept rat

fun observations :: "(nat \<Rightarrow> reply) \<Rightarrow> nat \<Rightarrow> event list \<Rightarrow> observation list" where
  "observations rep i [] = []"
| "observations rep i (QueueDeclare ch q d a # es) =
     (case rep i of Ok n \<Rightarrow> [Depth q n] | Raise e \<Rightarrow> []) @ observations rep (Suc i) es"
| "observations rep i (Sleep s # es) = Slept s # observations rep (Suc i) es"
| "observations rep i (ev # es) = observations rep (Suc i) es"

definition quiet_sample :: "string \<Rightarrow> rat \<Rightarrow> nat \<Rightarrow> observation list" where
  "quiet_sample q secs xn =
     [Depth q 0, Depth (dq_name q) 0, Depth (xq_name q) xn, Slept secs]"

section \<open>How the operations change the state\<close>

lemma new_events_self [simp]: "new_events w w = []"
  by (simp add: new_events_def)

lemma grows_refl [simp]: "grows w w"
  by (simp add: grows_def)

lemma grows_trans: "grows w w' \<Longrightarrow> grows w' w'' \<Longrightarrow> grows w w''"
  by (auto simp: grows_def)

lemma grows_trace: "grows w w' \<Longrightarrow> trace w' = trace w @ new_events w w'"
  by (auto simp: grows_def new_events_def)

lemma new_events_append:
  assumes "grows w w'" and "grows w' w''"
  shows "new_events w w'' = new_events w w' @ new_events w' w''"
proof -
  from assms obtain es es' where "trace w' = trace w @ es" "trace w'' = trace w' @ es'"
    by (auto simp: grows_def)
  then show ?thesis by (simp add: new_events_def)
qed

lemma call_grows: "call ev w = (r, w') \<Longrightarrow> grows w w' \<and> new_events w w' = [ev]"
  by (auto simp: call_def grows_def new_events_def)

lemma same_config_refl [simp]: "same_config b b"
  by (simp add: same_config_def)

lemma same_config_trans: "same_config b b' \<Longrightarrow> same_config b' b'' \<Longrightarrow> same_config b b''"
  by (auto simp: same_config_def)

lemma connection_effect:
  assumes "connection b w = (r, b', w')"
  shows "grows w w' \<and> same_config b b' \<and> list_all plumbing (new_events w w')"
  using assms
  by (auto simp: connection_def same_config_def split: if_splits prod.splits reply.splits dest!: call_grows)

lemma and_then_Inl [simp]: "and_then (Inl e, b, w) f = (Inl e, b, w)"
  by (simp add: and_then_def)

lemma and_then_Inr [simp]: "and_then (Inr a, b, w) f = f a b w"
  by (simp add: and_then_def)

lemma and_then_cases:
  assumes "and_then r f = (x, b'', w'')"
  obtains (fail) e where "r = (Inl e, b'', w'')" "x = Inl e"
  | (ok) a b' w' where "r = (Inr a, b', w')" "f a b' w' = (x, b'', w'')"
  using assms by (cases r; cases "fst r") (auto simp: and_then_def)

lemma new_channel_effect:
  assumes "new_channel c b w = (r, b', w')"
  shows "grows w w' \<and> same_config b b' \<and> list_all plumbing (new_events w w')"
proof -
  obtain r1 w1 where c1: "call (ConnectionChannel c) w = (r1, w1)" by force
  obtain r2 w2 where c2: "call (ConfirmDeliveries (length (trace w))) w1 = (r2, w2)" by force
  note g1 = call_grows [OF c1] and g2 = call_grows [OF c2]
  have g12: "grows w w2" using g1 g2 by (blast intro: grows_trans)
  have e12: "list_all plumbing (new_events w w2)"
    using new_events_append [of w w1 w2] g1 g2 by simp
  from assms c1 c2 g1 g12 e12 show ?thesis
    by (auto simp: new_channel_def same_config_def split: reply.splits if_splits)
qed

lemma channel_effect:
  assumes "channel b w = (r, b', w')"
  shows "grows w w' \<and> same_config b b' \<and> list_all plumbing (new_events w w')"
proof (cases "none_or_closed (state_channel b) w")
  case False
  with assms show ?thesis by (simp add: channel_def)
next
  case True
  with assms have *: "and_then (connection b w) new_channel = (r, b', w')"
    by (simp add: channel_def)
  show ?thesis
  proof (rule and_then_cases [OF *])
    fix e assume "connection b w = (Inl e, b', w')" "r = Inl e"
    then show ?thesis using connection_effect by blast
  next
    fix c b1 w1
    assume c: "connection b w = (Inr c, b1, w1)" and n: "new_channel c b1 w1 = (r, b', w')"
    note e1 = connection_effect [OF c] and e2 = new_channel_effect [OF n]
    have "list_all plumbing (new_events w w')"
      using new_events_append [of w w1 w'] e1 e2 by simp
    then show ?thesis using e1 e2 by (blast intro: grows_trans same_config_trans)
  qed
qed

lemma channel_returns:
  assumes "channel b w = (Inr ch, b', w')"
  shows "state_channel b' = Some ch"
proof (cases "none_or_closed (state_channel b) w")
  case False
  with assms show ?thesis by (auto simp: channel_def none_or_closed_def split: option.splits)
next
  case True
  with assms have *: "and_then (connection b w) new_channel = (Inr ch, b', w')"
    by (simp add: channel_def)
  show ?thesis
  proof (rule and_then_cases [OF *])
    fix c b1 w1
    assume "new_channel c b1 w1 = (Inr ch, b', w')"
    then show ?thesis
      by (auto simp: new_channel_def split: prod.splits reply.splits if_splits)
  qed simp
qed

text \<open>What a call through the thread's channel leaves in the trace.\<close>

lemma channel_call_effect:
  assumes "channel_call f b w = (r, b', w')"
  shows "grows w w' \<and> same_config b b' \<and>
         (\<exists>pre. list_all plumbing pre \<and>
            (case r of
               Inr n \<Rightarrow> \<exists>ch. new_events w w' = pre @ [f ch] \<and> state_channel b' = Some ch \<and>
                          replies w (length (trace w) + length pre) = Ok n
             | Inl e \<Rightarrow> new_events w w' = pre \<or> (\<exists>ch. new_events w w' = pre @ [f ch])))"
proof -
  from assms have *: "and_then (channel b w) (\<lambda>ch b1 w1.
       (case call (f ch) w1 of
          (Raise e, w2) \<Rightarrow> (Inl e, b1, w2)
        | (Ok n, w2) \<Rightarrow> (Inr n, b1, w2))) = (r, b', w')"
    by (simp add: channel_call_def)
  show ?thesis
  proof (rule and_then_cases [OF *])
    fix e assume c: "channel b w = (Inl e, b', w')" and "r = Inl e"
    with channel_effect [OF c] show ?thesis by auto
  next
    fix ch b1 w1
    assume c: "channel b w = (Inr ch, b1, w1)"
      and k: "(case call (f ch) w1 of
          (Raise e, w2) \<Rightarrow> (Inl e, b1, w2)
        | (Ok n, w2) \<Rightarrow> (Inr n, b1, w2)) = (r, b', w')"
    note e1 = channel_effect [OF c] and s1 = channel_returns [OF c]
    obtain r2 w2 where c2: "call (f ch) w1 = (r2, w2)" by force
    note g2 = call_grows [OF c2]
    have w': "w' = w2" and b': "b' = b1" using k c2 by (auto split: reply.splits)
    have ne: "new_events w w' = new_events w w1 @ [f ch]"
      using new_events_append [of w w1 w2] e1 g2 w' by simp
    have len: "length (trace w1) = length (trace w) + length (new_events w w1)"
      using grows_trace [of w w1] e1 by simp
    have rep: "r2 = replies w (length (trace w) + length (new_events w w1))"
      using c2 e1 len by (auto simp: call_def grows_def)
    have g: "grows w w'" using e1 g2 w' by (blast intro: grows_trans)
    show ?thesis
    proof (cases r2)
      case (Ok n)
      with k c2 have "r = Inr n" by simp
      with g e1 b' s1 ne rep Ok show ?thesis
        by (intro conjI) (auto intro!: exI [of _ "new_events w w1"])
    next
      case (Raise e)
      with k c2 have "r = Inl e" by simp
      with g e1 b' ne show ?thesis
        by (intro conjI) (auto intro!: exI [of _ "new_events w w1"])
    qed
  qed
qed

lemma declared_append [simp]: "declared (es @ es') = declared es @ declared es'"
  by (induction es rule: declared.induct) auto

lemma published_append [simp]: "published (es @ es') = published es @ published es'"
  by (induction es rule: published.induct) auto

lemma declared_plumbing [simp]: "list_all plumbing es \<Longrightarrow> declared es = []"
  by (induction es rule: declared.induct) auto

lemma published_plumbing [simp]: "list_all plumbing es \<Longrightarrow> published es = []"
  by (induction es rule: published.induct) auto

lemma declare_call_effect:
  assumes "channel_call (\<lambda>ch. QueueDeclare ch name d a) b w = (r, b', w')"
  shows "grows w w' \<and> same_config b b' \<and> published (new_events w w') = [] \<and>
         (case r of
            Inr n \<Rightarrow> declared (new_events w w') = [(name, d, a)]
          | Inl e \<Rightarrow> declared (new_events w w') = [] \<or>
                     declared (new_events w w') = [(name, d, a)])"
  using channel_call_effect [OF assms] by (auto split: sum.splits)

lemma priv_build_queue_arguments_cong:
  "same_config b b' \<Longrightarrow> priv_build_queue_arguments b' q = priv_build_queue_arguments b q"
  by (simp add: priv_build_queue_arguments_def same_config_def)

lemma topology_cong: "same_config b b' \<Longrightarrow> topology b' q = topology b q"
  by (simp add: topology_def priv_build_queue_arguments_cong)

lemma declare_each_effect:
  "declare_each qs b w = (r, b', w') \<Longrightarrow>
     grows w w' \<and> same_config b b' \<and> published (new_events w w') = [] \<and>
     (r = Inr () \<longrightarrow> declared (new_events w w') = concat (map (topology b) qs))"
proof (induction qs arbitrary: b w)
  case Nil
  then show ?case by auto
next
  case (Cons q qs)
  from Cons.prems have *: "and_then (priv_declare_queue b w q) (\<lambda>_ b1 w1.
       and_then (priv_declare_dq_queue b1 w1 q) (\<lambda>_ b2 w2.
         and_then (priv_declare_xq_queue b2 w2 q) (\<lambda>_ b3 w3.
           declare_each qs b3 w3))) = (r, b', w')" by simp
  show ?case
  proof (rule and_then_cases [OF *])
    fix e assume "priv_declare_queue b w q = (Inl e, b', w')" "r = Inl e"
    then show ?thesis
      using declare_call_effect by (auto simp: priv_declare_queue_def)
  next
    fix n b1 w1
    assume d1: "priv_declare_queue b w q = (Inr n, b1, w1)"
      and k1: "and_then (priv_declare_dq_queue b1 w1 q) (\<lambda>_ b2 w2.
         and_then (priv_declare_xq_queue b2 w2 q) (\<lambda>_ b3 w3.
           declare_each qs b3 w3)) = (r, b', w')"
    have e1: "grows w w1" "same_config b b1" "published (new_events w w1) = []"
      "declared (new_events w w1) = [(q, True, priv_build_queue_arguments b q)]"
      using d1 declare_call_effect [of q True "priv_build_queue_arguments b q" b w "Inr n" b1 w1]
      by (auto simp: priv_declare_queue_def)
    show ?thesis
    proof (rule and_then_cases [OF k1])
      fix e assume d2: "priv_declare_dq_queue b1 w1 q = (Inl e, b', w')" and "r = Inl e"
      have "grows w1 w'" "same_config b1 b'" "published (new_events w1 w') = []"
        using d2 declare_call_effect [of "dq_name q" True "priv_build_queue_arguments b1 q" b1 w1 "Inl e" b' w']
        by (auto simp: priv_declare_dq_queue_def)
      with e1 \<open>r = Inl e\<close> show ?thesis
        using new_events_append [of w w1 w']
        by (auto intro: grows_trans same_config_trans)
    next
      fix dn b2 w2
      assume d2: "priv_declare_dq_queue b1 w1 q = (Inr dn, b2, w2)"
        and k2: "and_then (priv_declare_xq_queue b2 w2 q) (\<lambda>_ b3 w3.
           declare_each qs b3 w3) = (r, b', w')"
      have e2': "grows w1 w2" "same_config b1 b2" "published (new_events w1 w2) = []"
        "declared (new_events w1 w2) = [(dq_name q, True, priv_build_queue_arguments b1 q)]"
        using d2 declare_call_effect [of "dq_name q" True "priv_build_queue_arguments b1 q" b1 w1 "Inr dn" b2 w2]
        by (auto simp: priv_declare_dq_queue_def)
      have e2: "grows w w2" "same_config b b2" "published (new_events w w2) = []"
        "declared (new_events w w2) =
           [(q, True, priv_build_queue_arguments b q),
            (dq_name q, True, priv_build_queue_arguments b q)]"
        using e1 e2' new_events_append [of w w1 w2]
        by (auto intro: grows_trans same_config_trans simp: priv_build_queue_arguments_cong)
      show ?thesis
      proof (rule and_then_cases [OF k2])
        fix e assume d3: "priv_declare_xq_queue b2 w2 q = (Inl e, b', w')" and "r = Inl e"
        have "grows w2 w'" "same_config b2 b'" "published (new_events w2 w') = []"
          using d3 declare_call_effect [of "xq_name q" True _ b2 w2 "Inl e" b' w']
          by (auto simp: priv_declare_xq_queue_def)
        with e2 \<open>r = Inl e\<close> show ?thesis
          using new_events_append [of w w2 w']
          by (auto intro: grows_trans same_config_trans)
      next
        fix xn b3 w3
        assume d3: "priv_declare_xq_queue b2 w2 q = (Inr xn, b3, w3)"
          and k3: "declare_each qs b3 w3 = (r, b', w')"
        have e3': "grows w2 w3" "same_config b2 b3" "published (new_events w2 w3) = []"
          "declared (new_events w2 w3) = [(xq_name q, True, [(''x-message-ttl'', PInt DEAD_MESSAGE_TTL)])]"
          using d3 declare_call_effect [of "xq_name q" True _ b2 w2 "Inr xn" b3 w3]
          by (auto simp: priv_declare_xq_queue_def)
        have e3: "grows w w3" "same_config b b3" "published (new_events w w3) = []"
          "declared (new_events w w3) = topology b q"
          using e2 e3' new_events_append [of w w2 w3]
          by (auto intro: grows_trans same_config_trans simp: topology_def)
        note ih = Cons.IH [OF k3]
        have "topology b3 = topology b" using e3(2) by (auto simp: topology_cong)
        with ih e3 show ?thesis
          using new_events_append [of w w3 w']
          by (auto intro: grows_trans same_config_trans)
      qed
    qed
  qed
qed

lemmas run_defs =
  priv_declare_rabbitmq_queues_def priv_declare_queue_def priv_declare_dq_queue_def
  priv_declare_xq_queue_def channel_call_def channel_def connection_def new_channel_def
  call_def none_or_closed_def priv_build_queue_arguments_def new_events_def
  quiet_world_def fresh_broker_def dq_name_def xq_name_def DEAD_MESSAGE_TTL_def
  declare_queue_def emit_def

section \<open>Queue topology\<close>

text \<open>
  Claim C4. For a broker constructed with \<open>max_priority = mp\<close>, a topology declaration
  that returns normally has declared, for every recorded queue name \<open>Q\<close> and in this
  order, exactly the durable queues \<open>Q\<close>, \<open>dq_name Q\<close> and \<open>xq_name Q\<close>; the first two with
  \<open>x-dead-letter-exchange\<close> empty and \<open>x-dead-letter-routing-key\<close> \<open>xq_name Q\<close>, and with
  \<open>x-max-priority\<close> exactly when \<open>mp\<close> is set; the three names differ.
\<close>

theorem topology_declaration:
  assumes "RabbitmqBroker_init confirm url_arg mp = Inr b0"
    and "max_priority b = max_priority b0"
    and "priv_declare_rabbitmq_queues b w = (Inr (), b', w')"
  shows "declared (new_events w w') =
           concat (map (\<lambda>Q.
             [(Q, True,
               [(''x-dead-letter-exchange'', PStr []),
                (''x-dead-letter-routing-key'', PStr (xq_name Q))] @
               (case mp of None \<Rightarrow> [] | Some p \<Rightarrow> [(''x-max-priority'', PInt p)])),
              (dq_name Q, True,
               [(''x-dead-letter-exchange'', PStr []),
                (''x-dead-letter-routing-key'', PStr (xq_name Q))] @
               (case mp of None \<Rightarrow> [] | Some p \<Rightarrow> [(''x-max-priority'', PInt p)])),
              (xq_name Q, True, [(''x-message-ttl'', PInt 604800000)])]) (queues b)) \<and>
         (\<forall>Q. distinct [Q, dq_name Q, xq_name Q])"
proof -
  have mp1: "max_priority b = mp"
    using assms(1,2) by (auto simp: RabbitmqBroker_init_def split: if_splits)
  have mp2: "mp = None \<or> (\<exists>p. mp = Some p \<and> p \<noteq> 0)"
    using assms(1) by (cases mp) (auto simp: RabbitmqBroker_init_def split: if_splits)
  note mp = mp1 mp2
  have args: "priv_build_queue_arguments b Q =
      [(''x-dead-letter-exchange'', PStr []),
       (''x-dead-letter-routing-key'', PStr (xq_name Q))] @
      (case mp of None \<Rightarrow> [] | Some p \<Rightarrow> [(''x-max-priority'', PInt p)])" for Q
    using mp by (auto simp: priv_build_queue_arguments_def)
  have "declared (new_events w w') = concat (map (topology b) (queues b))"
    using declare_each_effect [of "queues b" b w "Inr ()" b' w'] assms(3)
    by (simp add: priv_declare_rabbitmq_queues_def)
  moreover have "distinct [Q, dq_name Q, xq_name Q]" for Q
    by (simp add: dq_name_def xq_name_def)
  moreover have "topology b = (\<lambda>Q.
             [(Q, True,
               [(''x-dead-letter-exchange'', PStr []),
                (''x-dead-letter-routing-key'', PStr (xq_name Q))] @
               (case mp of None \<Rightarrow> [] | Some p \<Rightarrow> [(''x-max-priority'', PInt p)])),
              (dq_name Q, True,
               [(''x-dead-letter-exchange'', PStr []),
                (''x-dead-letter-routing-key'', PStr (xq_name Q))] @
               (case mp of None \<Rightarrow> [] | Some p \<Rightarrow> [(''x-max-priority'', PInt p)])),
              (xq_name Q, True, [(''x-message-ttl'', PInt 604800000)])])"
    by (rule ext) (simp only: topology_def args DEAD_MESSAGE_TTL_def, simp)
  ultimately show ?thesis
    by simp
qed

theorem topology_declaration_witness:
  "declared (new_events quiet_world
      (snd (snd (priv_declare_rabbitmq_queues
         (fresh_broker\<lparr>max_priority := Some 10, queues := [''default'']\<rparr>) quiet_world)))) =
     [(''default'', True,
       [(''x-dead-letter-exchange'', PStr []),
        (''x-dead-letter-routing-key'', PStr ''default.XQ''),
        (''x-max-priority'', PInt 10)]),
      (''default.DQ'', True,
       [(''x-dead-letter-exchange'', PStr []),
        (''x-dead-letter-routing-key'', PStr ''default.XQ''),
        (''x-max-priority'', PInt 10)]),
      (''default.XQ'', True, [(''x-message-ttl'', PInt 604800000)])]"
proof -
  let ?b = "fresh_broker\<lparr>max_priority := Some 10, queues := [''default'']\<rparr>"
  have init: "RabbitmqBroker_init False None (Some 10) = Inr (fresh_broker\<lparr>max_priority := Some 10\<rparr>)"
    by (simp add: RabbitmqBroker_init_def fresh_broker_def)
  have run: "priv_declare_rabbitmq_queues ?b quiet_world =
      (Inr (), ?b\<lparr>priv_connection := Some 0, state_channel := Some 1\<rparr>,
       snd (snd (priv_declare_rabbitmq_queues ?b quiet_world)))"
    by (simp add: run_defs)
  from topology_declaration [OF init _ run] show ?thesis
    by (simp add: dq_name_def xq_name_def)
qed

lemma declare_xq_effect:
  assumes "priv_declare_xq_queue b w q = (r, b', w')"
  shows "(case r of
            Inr n \<Rightarrow> declared (new_events w w') =
                       [(xq_name q, True, [(''x-message-ttl'', PInt 604800000)])]
          | Inl e \<Rightarrow> declared (new_events w w') = [] \<or>
                     declared (new_events w w') =
                       [(xq_name q, True, [(''x-message-ttl'', PInt 604800000)])])"
proof -
  have ttl: "DEAD_MESSAGE_TTL = 604800000" by (simp add: DEAD_MESSAGE_TTL_def)
  from assms have c: "channel_call (\<lambda>ch. QueueDeclare ch (xq_name q) True
                          [(''x-message-ttl'', PInt 604800000)]) b w = (r, b', w')"
    unfolding priv_declare_xq_queue_def ttl .
  from declare_call_effect [OF c] show ?thesis by simp
qed

text \<open>
  Claim C7. The dead-letter queue of every queue name is declared with the single
  argument \<open>x-message-ttl\<close> = 604800000 milliseconds, the constant \<open>DEAD_MESSAGE_TTL\<close>,
  whatever the broker state, the environment and the queue name.
\<close>

theorem dead_letter_queue_ttl:
  "DEAD_MESSAGE_TTL = 604800000 \<and>
   (priv_declare_xq_queue b w q = (r, b', w') \<longrightarrow>
      (\<forall>d \<in> set (declared (new_events w w')).
          d = (xq_name q, True, [(''x-message-ttl'', PInt 604800000)])) \<and>
      ((\<exists>n. r = Inr n) \<longrightarrow>
          declared (new_events w w') = [(xq_name q, True, [(''x-message-ttl'', PInt 604800000)])]))"
proof (intro conjI impI)
  show "DEAD_MESSAGE_TTL = 604800000" by (simp add: DEAD_MESSAGE_TTL_def)
next
  assume a: "priv_declare_xq_queue b w q = (r, b', w')"
  from declare_xq_effect [OF a]
  show "\<forall>d \<in> set (declared (new_events w w')).
          d = (xq_name q, True, [(''x-message-ttl'', PInt 604800000)])"
    by (cases r) auto
next
  assume a: "priv_declare_xq_queue b w q = (r, b', w')" and "\<exists>n. r = Inr n"
  with declare_xq_effect [OF a]
  show "declared (new_events w w') = [(xq_name q, True, [(''x-message-ttl'', PInt 604800000)])]"
    by auto
qed


theorem dead_letter_queue_ttl_witness:
  "priv_declare_xq_queue fresh_broker quiet_world ''default'' =
     (Inr 0, fresh_broker\<lparr>priv_connection := Some 0, state_channel := Some 1\<rparr>,
      quiet_world\<lparr>trace := [UriConnection [], ConnectionChannel 0,
         QueueDeclare 1 ''default.XQ'' True [(''x-message-ttl'', PInt 604800000)]]\<rparr>) \<and>
   declared (new_events quiet_world
      (quiet_world\<lparr>trace := [UriConnection [], ConnectionChannel 0,
         QueueDeclare 1 ''default.XQ'' True [(''x-message-ttl'', PInt 604800000)]]\<rparr>)) =
     [(''default.XQ'', True, [(''x-message-ttl'', PInt 604800000)])]"
proof -
  have run: "priv_declare_xq_queue fresh_broker quiet_world ''default'' =
     (Inr 0, fresh_broker\<lparr>priv_connection := Some 0, state_channel := Some 1\<rparr>,
      quiet_world\<lparr>trace := [UriConnection [], ConnectionChannel 0,
         QueueDeclare 1 ''default.XQ'' True [(''x-message-ttl'', PInt 604800000)]]\<rparr>)"
    by (simp add: run_defs)
  have "declared (new_events quiet_world
      (quiet_world\<lparr>trace := [UriConnection [], ConnectionChannel 0,
         QueueDeclare 1 ''default.XQ'' True [(''x-message-ttl'', PInt 604800000)]]\<rparr>)) =
     [(xq_name ''default'', True, [(''x-message-ttl'', PInt 604800000)])]"
    using dead_letter_queue_ttl [THEN conjunct2, THEN mp, OF run] by blast
  with run show ?thesis by (simp only: xq_name_def append.simps)
qed

section \<open>Construction\<close>

text \<open>
  Claim C8. Constructing the broker with \<open>max_priority\<close> outside 1..255 raises
  \<open>ValueError\<close>; with \<open>max_priority\<close> in 1..255 or \<open>None\<close> it succeeds, and the new broker
  holds neither a connection nor a channel. The constructor has no access to the
  environment: it makes no call of the client library.
\<close>

theorem max_priority_checked_at_construction:
  "(p < 1 \<or> 255 < p \<longrightarrow>
      RabbitmqBroker_init confirm url_arg (Some p) =
        Inl (ValueError ''max_priority must be a value between 0 and 255'')) \<and>
   (mp = None \<or> (\<exists>n. mp = Some n \<and> 1 \<le> n \<and> n \<le> 255) \<longrightarrow>
      (\<exists>b. RabbitmqBroker_init confirm url_arg mp = Inr b \<and> max_priority b = mp \<and>
           priv_connection b = None \<and> state_channel b = None \<and> \<not> queues_declared b))"
  by (auto simp: RabbitmqBroker_init_def)

theorem max_priority_checked_at_construction_witness:
  "RabbitmqBroker_init False None (Some 0) =
     Inl (ValueError ''max_priority must be a value between 0 and 255'') \<and>
   RabbitmqBroker_init False None (Some 256) =
     Inl (ValueError ''max_priority must be a value between 0 and 255'') \<and>
   (\<exists>b. RabbitmqBroker_init False None (Some 255) = Inr b \<and> max_priority b = Some 255 \<and>
        priv_connection b = None \<and> state_channel b = None \<and> \<not> queues_declared b) \<and>
   (\<exists>b. RabbitmqBroker_init False None None = Inr b \<and> max_priority b = None \<and>
        priv_connection b = None \<and> state_channel b = None \<and> \<not> queues_declared b)"
  using max_priority_checked_at_construction [of 0 False None "Some 255"]
    max_priority_checked_at_construction [of 256 False None None]
  by simp

section \<open>Enqueue: attempts, recovery and the loop\<close>

lemma same_config_setup: "same_config b b' \<Longrightarrow> same_setup b b'"
  by (simp add: same_config_def same_setup_def)

lemma same_setup_refl [simp]: "same_setup b b"
  by (simp add: same_setup_def)

lemma same_setup_trans: "same_setup b b' \<Longrightarrow> same_setup b' b'' \<Longrightarrow> same_setup b b''"
  by (auto simp: same_setup_def)

lemma topology_setup: "same_setup b b' \<Longrightarrow> topology b' = topology b"
  by (rule ext) (simp add: topology_def priv_build_queue_arguments_def same_setup_def)

lemma del_connection_effect:
  assumes "del_connection b w = (r, b', w')"
  shows "grows w w' \<and> same_config b b' \<and> list_all plumbing (new_events w w') \<and>
         state_channel b' = state_channel b \<and> (r = Inr () \<longrightarrow> priv_connection b' = None)"
proof (cases "priv_connection b")
  case None
  with assms show ?thesis by (auto simp: del_connection_def same_config_def)
next
  case (Some c)
  obtain r1 w1 where c1: "call (ConnectionClose c) w = (r1, w1)" by force
  from assms Some c1 call_grows [OF c1] show ?thesis
    by (auto simp: del_connection_def same_config_def split: reply.splits if_splits)
qed

lemma del_channel_effect:
  assumes "del_channel b w = (r, b', w')"
  shows "grows w w' \<and> same_config b b' \<and> list_all plumbing (new_events w w') \<and>
         priv_connection b' = priv_connection b \<and>
         (r = Inr () \<longrightarrow> state_channel b' = None \<or>
            replies w (length (trace w)) = Raise AttributeError)"
proof (cases "state_channel b")
  case None
  with assms show ?thesis by (auto simp: del_channel_def)
next
  case (Some c)
  obtain r1 w1 where c1: "call (ChannelClose c) w = (r1, w1)" by force
  have "r1 = replies w (length (trace w))" using c1 by (auto simp: call_def)
  with assms Some c1 call_grows [OF c1] show ?thesis
    by (auto simp: del_channel_def same_config_def split: reply.splits if_splits)
qed

lemma enqueue_recover_effect:
  assumes "enqueue_recover e b w = (r, b', w')"
  shows "grows w w' \<and> same_config b b' \<and> list_all plumbing (new_events w w')"
  using assms del_connection_effect [of b w r b' w'] del_channel_effect [of b w r b' w']
  by (auto simp: enqueue_recover_def split: if_splits)

lemma publish_call_effect:
  assumes "channel_call (\<lambda>ch. BasicPublish ch ex rk bd props) b w = (r, b', w')"
  shows "grows w w' \<and> same_config b b' \<and> declared (new_events w w') = [] \<and>
         (case r of
            Inr n \<Rightarrow> published (new_events w w') = [(ex, rk, bd, props)] \<and>
                     (\<exists>pre ch. new_events w w' = pre @ [BasicPublish ch ex rk bd props])
          | Inl e \<Rightarrow> published (new_events w w') = [] \<or>
                     published (new_events w w') = [(ex, rk, bd, props)])"
  using channel_call_effect [OF assms] by (auto split: sum.splits)

text \<open>The first half of an attempt: the guarded topology declaration.\<close>

lemma guarded_declaration_effect:
  assumes "(if \<not> queues_declared b then
          and_then (priv_declare_rabbitmq_queues b w) (\<lambda>_ b1 w1.
            (Inr (), b1\<lparr>queues_declared := True\<rparr>, w1))
        else (Inr (), b, w)) = (r, b', w')"
  shows "grows w w' \<and> same_setup b b' \<and> emitted b' = emitted b \<and>
         published (new_events w w') = [] \<and>
         (queues_declared b \<longrightarrow> queues_declared b' \<and> declared (new_events w w') = []) \<and>
         (r = Inr () \<longrightarrow> queues_declared b') \<and>
         (\<not> queues_declared b \<and> queues_declared b' \<longrightarrow>
            declared (new_events w w') = concat (map (topology b) (queues b)))"
proof (cases "queues_declared b")
  case True
  with assms show ?thesis by auto
next
  case False
  with assms have *: "and_then (priv_declare_rabbitmq_queues b w) (\<lambda>_ b1 w1.
            (Inr (), b1\<lparr>queues_declared := True\<rparr>, w1)) = (r, b', w')" by simp
  show ?thesis
  proof (rule and_then_cases [OF *])
    fix e assume d: "priv_declare_rabbitmq_queues b w = (Inl e, b', w')" and "r = Inl e"
    with declare_each_effect [of "queues b" b w "Inl e" b' w'] False show ?thesis
      by (auto simp: priv_declare_rabbitmq_queues_def same_config_def same_setup_def)
  next
    fix u b1 w1
    assume d: "priv_declare_rabbitmq_queues b w = (Inr u, b1, w1)"
      and "(Inr (), b1\<lparr>queues_declared := True\<rparr>, w1) = (r, b', w')"
    with declare_each_effect [of "queues b" b w "Inr ()" b1 w1] False show ?thesis
      by (auto simp: priv_declare_rabbitmq_queues_def same_config_def same_setup_def)
  qed
qed

lemma enqueue_attempt_effect:
  assumes "enqueue_attempt b w qn m delay props = (r, b', w')"
  shows "grows w w' \<and> same_setup b b' \<and>
         (queues_declared b \<longrightarrow> queues_declared b' \<and> declared (new_events w w') = []) \<and>
         (\<not> queues_declared b \<and> queues_declared b' \<longrightarrow>
            declared (new_events w w') = concat (map (topology b) (queues b))) \<and>
         (case r of
            Inr x \<Rightarrow> x = m \<and> queues_declared b' \<and>
                     published (new_events w w') = [([], qn, encode m, props)] \<and>
                     (\<exists>pre ch. new_events w w' = pre @ [BasicPublish ch [] qn (encode m) props]) \<and>
                     emitted b' = emitted b @ [BeforeEnqueue m delay, AfterEnqueue m delay]
          | Inl e \<Rightarrow> published (new_events w w') = [] \<or>
                     published (new_events w w') = [([], qn, encode m, props)])"
proof -
  let ?g = "if \<not> queues_declared b then
          and_then (priv_declare_rabbitmq_queues b w) (\<lambda>_ b1 w1.
            (Inr (), b1\<lparr>queues_declared := True\<rparr>, w1))
        else (Inr (), b, w)"
  from assms have *: "and_then ?g (\<lambda>_ b1 w1.
          and_then
            (channel_call (\<lambda>ch. BasicPublish ch [] qn (encode m) props)
               (emit (BeforeEnqueue m delay) b1) w1)
            (\<lambda>_ b2 w2. (Inr m, emit (AfterEnqueue m delay) b2, w2))) = (r, b', w')"
    by (simp add: enqueue_attempt_def)
  show ?thesis
  proof (rule and_then_cases [OF *])
    fix e assume g: "?g = (Inl e, b', w')" and "r = Inl e"
    with guarded_declaration_effect [OF g] show ?thesis by auto
  next
    fix u b1 w1
    assume g: "?g = (Inr u, b1, w1)"
      and k: "and_then
            (channel_call (\<lambda>ch. BasicPublish ch [] qn (encode m) props)
               (emit (BeforeEnqueue m delay) b1) w1)
            (\<lambda>_ b2 w2. (Inr m, emit (AfterEnqueue m delay) b2, w2)) = (r, b', w')"
    have g': "?g = (Inr (), b1, w1)" using g by simp
    note e1 = guarded_declaration_effect [OF g']
    show ?thesis
    proof (rule and_then_cases [OF k])
      fix e
      assume p: "channel_call (\<lambda>ch. BasicPublish ch [] qn (encode m) props)
               (emit (BeforeEnqueue m delay) b1) w1 = (Inl e, b', w')" and "r = Inl e"
      note e2 = publish_call_effect [OF p]
      have "new_events w w' = new_events w w1 @ new_events w1 w'"
        using new_events_append e1 e2 by blast
      with e1 e2 \<open>r = Inl e\<close> show ?thesis
        by (auto simp: same_setup_def same_config_def emit_def intro: grows_trans)
    next
      fix n b2 w2
      assume p: "channel_call (\<lambda>ch. BasicPublish ch [] qn (encode m) props)
               (emit (BeforeEnqueue m delay) b1) w1 = (Inr n, b2, w2)"
        and "(Inr m, emit (AfterEnqueue m delay) b2, w2) = (r, b', w')"
      then have r: "r = Inr m" "b' = emit (AfterEnqueue m delay) b2" "w' = w2" by auto
      note e2 = publish_call_effect [OF p]
      have ne: "new_events w w' = new_events w w1 @ new_events w1 w'"
        using new_events_append e1 e2 r by blast
      from e2 obtain pre ch where "new_events w1 w2 = pre @ [BasicPublish ch [] qn (encode m) props]"
        by auto
      with ne r have "new_events w w' = (new_events w w1 @ pre) @ [BasicPublish ch [] qn (encode m) props]"
        by simp
      then have ex: "\<exists>pre ch. new_events w w' = pre @ [BasicPublish ch [] qn (encode m) props]"
        by blast
      from e1 e2 r ne ex show ?thesis
        by (auto simp: same_setup_def same_config_def emit_def intro: grows_trans)
    qed
  qed
qed

text \<open>One unfolding of the loop, by the outcome of the pass.\<close>

lemma enqueue_loop_returns:
  "enqueue_attempt b w qn m delay props = (Inr x, b1, w1) \<Longrightarrow>
     enqueue_loop k b w qn m delay props = (Inr x, b1, w1)"
  by (subst enqueue_loop.simps) simp

lemma enqueue_loop_retries:
  "failed_attempt b w qn m delay props = Some (e, b2, w2) \<Longrightarrow>
     enqueue_loop k b w qn m delay props =
       (if k + 1 > MAX_ENQUEUE_ATTEMPTS then (Inl (ConnectionClosed e), b2, w2)
        else enqueue_loop (k + 1) b2 w2 qn m delay props)"
  by (subst enqueue_loop.simps)
     (auto simp: failed_attempt_def split: prod.splits sum.splits if_splits)

lemma enqueue_loop_cases:
  assumes "enqueue_loop k b w qn m delay props = (r, b', w')"
  obtains
    (returns) x where "enqueue_attempt b w qn m delay props = (Inr x, b', w')" "r = Inr x"
  | (passes) e where "enqueue_attempt b w qn m delay props = (Inl e, b', w')" "r = Inl e"
      "\<not> connection_or_channel_error e"
  | (handler) e e' b1 w1 where "enqueue_attempt b w qn m delay props = (Inl e, b1, w1)"
      "connection_or_channel_error e" "enqueue_recover e b1 w1 = (Inl e', b', w')" "r = Inl e'"
  | (gives_up) e where "failed_attempt b w qn m delay props = Some (e, b', w')"
      "k + 1 > MAX_ENQUEUE_ATTEMPTS" "r = Inl (ConnectionClosed e)"
  | (again) e b2 w2 where "failed_attempt b w qn m delay props = Some (e, b2, w2)"
      "\<not> k + 1 > MAX_ENQUEUE_ATTEMPTS"
      "enqueue_loop (k + 1) b2 w2 qn m delay props = (r, b', w')"
proof -
  obtain ra b1 w1 where att: "enqueue_attempt b w qn m delay props = (ra, b1, w1)"
    by (cases "enqueue_attempt b w qn m delay props") auto
  show thesis
  proof (cases ra)
    case (Inr x)
    with att assms have "r = Inr x" "b' = b1" "w' = w1"
      by (simp_all add: enqueue_loop_returns)
    with att Inr show thesis by (intro returns [of x]) simp_all
  next
    case (Inl e)
    show thesis
    proof (cases "connection_or_channel_error e")
      case False
      from assms att Inl False have "(Inl e, b1, w1) = (r, b', w')"
        by (subst (asm) enqueue_loop.simps) simp
      then have "r = Inl e" "b' = b1" "w' = w1" by simp_all
      with att Inl False show thesis by (intro passes [of e]) simp_all
    next
      case True
      obtain rr b2 w2 where rec: "enqueue_recover e b1 w1 = (rr, b2, w2)"
        by (cases "enqueue_recover e b1 w1") auto
      show thesis
      proof (cases rr)
        case (Inl e')
        from assms att \<open>ra = Inl e\<close> True rec Inl have "(Inl e', b2, w2) = (r, b', w')"
          by (subst (asm) enqueue_loop.simps) simp
        then have "r = Inl e'" "b' = b2" "w' = w2" by simp_all
        with att \<open>ra = Inl e\<close> True rec Inl show thesis
          by (intro handler [of e b1 w1 e']) simp_all
      next
        case (Inr u)
        with att \<open>ra = Inl e\<close> True rec
        have fa: "failed_attempt b w qn m delay props = Some (e, b2, w2)"
          by (simp add: failed_attempt_def)
        show thesis
        proof (cases "k + 1 > MAX_ENQUEUE_ATTEMPTS")
          case True
          with assms enqueue_loop_retries [OF fa, of k]
          have "(Inl (ConnectionClosed e), b2, w2) = (r, b', w')" by simp
          then have "r = Inl (ConnectionClosed e)" "b' = b2" "w' = w2" by simp_all
          with fa True show thesis by (intro gives_up [of e]) simp_all
        next
          case False
          with assms enqueue_loop_retries [OF fa, of k]
          have "enqueue_loop (k + 1) b2 w2 qn m delay props = (r, b', w')" by simp
          with fa False show thesis by (intro again [of e b2 w2]) simp_all
        qed
      qed
    qed
  qed
qed

lemma failed_attempt_effect:
  assumes "failed_attempt b w qn m delay props = Some (e, b2, w2)"
  shows "grows w w2 \<and> same_setup b b2 \<and> connection_or_channel_error e \<and>
         (queues_declared b \<longrightarrow> queues_declared b2 \<and> declared (new_events w w2) = []) \<and>
         (\<not> queues_declared b \<and> queues_declared b2 \<longrightarrow>
            declared (new_events w w2) = concat (map (topology b) (queues b))) \<and>
         (published (new_events w w2) = [] \<or>
          published (new_events w w2) = [([], qn, encode m, props)])"
proof -
  from assms obtain b1 w1 u where att: "enqueue_attempt b w qn m delay props = (Inl e, b1, w1)"
    and ce: "connection_or_channel_error e" and rec: "enqueue_recover e b1 w1 = (Inr u, b2, w2)"
    by (auto simp: failed_attempt_def split: prod.splits sum.splits if_splits)
  note e1 = enqueue_attempt_effect [OF att] and e2 = enqueue_recover_effect [OF rec]
  have ne: "new_events w w2 = new_events w w1 @ new_events w1 w2"
    using new_events_append e1 e2 by blast
  have qd: "queues_declared b2 = queues_declared b1" using e2 by (simp add: same_config_def)
  from e1 e2 ne ce qd show ?thesis
    by (auto intro: grows_trans same_setup_trans same_config_setup)
qed

lemma loop_effect_step:
  assumes fa: "failed_attempt b w qn m delay props = Some (e, b2, w2)"
    and le: "loop_effect b2 w2 qn m props r b' w'"
  shows "loop_effect b w qn m props r b' w'"
proof -
  note e1 = failed_attempt_effect [OF fa]
  have g2: "grows w2 w'" and s2: "same_setup b2 b'" using le by (auto simp: loop_effect_def)
  have ne: "new_events w w' = new_events w w2 @ new_events w2 w'"
    using new_events_append e1 g2 by blast
  have top: "topology b2 = topology b" "queues b2 = queues b"
    using e1 topology_setup [of b b2] by (auto simp: same_setup_def)
  have g: "grows w w'" using e1 g2 by (blast intro: grows_trans)
  have s: "same_setup b b'" using e1 s2 by (blast intro: same_setup_trans)
  have d: "queues_declared b \<longrightarrow> queues_declared b' \<and> declared (new_events w w') = []"
    using e1 le ne by (auto simp: loop_effect_def)
  have p: "\<forall>p \<in> set (published (new_events w w')). p = ([], qn, encode m, props)"
    using e1 le ne by (auto simp: loop_effect_def)
  have x: "x = m \<and> queues_declared b' \<and> published (new_events w w') \<noteq> [] \<and>
         (\<exists>pre ch. new_events w w' = pre @ [BasicPublish ch [] qn (encode m) props]) \<and>
         (\<not> queues_declared b \<longrightarrow>
            (\<exists>pre. declared (new_events w w') = pre @ concat (map (topology b) (queues b))))"
    if r: "r = Inr x" for x
  proof -
    from le r have a: "x = m" "queues_declared b'" "published (new_events w2 w') \<noteq> []"
      and "\<exists>pre ch. new_events w2 w' = pre @ [BasicPublish ch [] qn (encode m) props]"
      and t: "\<not> queues_declared b2 \<longrightarrow>
            (\<exists>pre. declared (new_events w2 w') = pre @ concat (map (topology b) (queues b)))"
      and z: "queues_declared b2 \<longrightarrow> declared (new_events w2 w') = []"
      using top by (auto simp: loop_effect_def)
    then obtain pre ch where "new_events w2 w' = pre @ [BasicPublish ch [] qn (encode m) props]"
      by blast
    with ne have "new_events w w' = (new_events w w2 @ pre) @ [BasicPublish ch [] qn (encode m) props]"
      by simp
    then have ex: "\<exists>pre ch. new_events w w' = pre @ [BasicPublish ch [] qn (encode m) props]"
      by blast
    have "\<exists>pre. declared (new_events w w') = pre @ concat (map (topology b) (queues b))"
      if nd: "\<not> queues_declared b"
    proof (cases "queues_declared b2")
      case True
      with e1 nd z ne have "declared (new_events w w') = [] @ concat (map (topology b) (queues b))"
        by simp
      then show ?thesis by blast
    next
      case False
      with t obtain pre where "declared (new_events w2 w') = pre @ concat (map (topology b) (queues b))"
        by blast
      with ne have "declared (new_events w w') =
          (declared (new_events w w2) @ pre) @ concat (map (topology b) (queues b))" by simp
      then show ?thesis by blast
    qed
    with a ex ne show ?thesis by simp
  qed
  from g s d p x show ?thesis unfolding loop_effect_def by blast
qed

lemma enqueue_loop_effect_aux:
  "Suc MAX_ENQUEUE_ATTEMPTS - k = n \<Longrightarrow>
   enqueue_loop k b w qn m delay props = (r, b', w') \<Longrightarrow>
   loop_effect b w qn m props r b' w'"
proof (induction n arbitrary: k b w)
  case 0
  from "0.prems"(2) show ?case
  proof (cases rule: enqueue_loop_cases)
    case (returns x)
    with enqueue_attempt_effect [OF returns(1)] show ?thesis by (auto simp: loop_effect_def)
  next
    case (passes e)
    with enqueue_attempt_effect [OF passes(1)] show ?thesis by (auto simp: loop_effect_def)
  next
    case (handler e e' b1 w1)
    note e1 = enqueue_attempt_effect [OF handler(1)] and e2 = enqueue_recover_effect [OF handler(3)]
    have ne: "new_events w w' = new_events w w1 @ new_events w1 w'"
      using new_events_append e1 e2 by blast
    have qd: "queues_declared b' = queues_declared b1" using e2 by (simp add: same_config_def)
    from e1 e2 ne qd handler(4) show ?thesis
      by (auto simp: loop_effect_def intro: grows_trans same_setup_trans same_config_setup)
  next
    case (gives_up e)
    with failed_attempt_effect [OF gives_up(1)] show ?thesis by (auto simp: loop_effect_def)
  next
    case (again e b2 w2)
    with "0.prems"(1) show ?thesis by simp
  qed
next
  case (Suc n)
  from Suc.prems(2) show ?case
  proof (cases rule: enqueue_loop_cases)
    case (returns x)
    with enqueue_attempt_effect [OF returns(1)] show ?thesis by (auto simp: loop_effect_def)
  next
    case (passes e)
    with enqueue_attempt_effect [OF passes(1)] show ?thesis by (auto simp: loop_effect_def)
  next
    case (handler e e' b1 w1)
    note e1 = enqueue_attempt_effect [OF handler(1)] and e2 = enqueue_recover_effect [OF handler(3)]
    have ne: "new_events w w' = new_events w w1 @ new_events w1 w'"
      using new_events_append e1 e2 by blast
    have qd: "queues_declared b' = queues_declared b1" using e2 by (simp add: same_config_def)
    from e1 e2 ne qd handler(4) show ?thesis
      by (auto simp: loop_effect_def intro: grows_trans same_setup_trans same_config_setup)
  next
    case (gives_up e)
    with failed_attempt_effect [OF gives_up(1)] show ?thesis by (auto simp: loop_effect_def)
  next
    case (again e b2 w2)
    from again(2) Suc.prems(1) have "Suc MAX_ENQUEUE_ATTEMPTS - (k + 1) = n" by simp
    from Suc.IH [OF this again(3)] have "loop_effect b2 w2 qn m props r b' w'" .
    with again(1) show ?thesis by (rule loop_effect_step)
  qed
qed

lemma enqueue_loop_effect:
  "enqueue_loop k b w qn m delay props = (r, b', w') \<Longrightarrow> loop_effect b w qn m props r b' w'"
  by (rule enqueue_loop_effect_aux [OF refl])

lemma map_of_dict_set: "map_of (dict_set d k v) = (map_of d)(k \<mapsto> v)"
  by (induction d k v rule: dict_set.induct) (auto simp: fun_eq_iff)

lemma enqueue_with_actor:
  "actors b (actor_name m) = Some a \<Longrightarrow>
     enqueue b w m delay =
       enqueue_loop 1 b w (delayed_queue_name m delay) (delayed_message m delay w) delay
         (publish_properties m a)"
  by (simp add: enqueue_def get_actor_def)

lemma enqueue_without_actor:
  "actors b (actor_name m) = None \<Longrightarrow>
     enqueue b w m delay = (Inl (ActorNotFound (actor_name m)), b, w)"
  by (simp add: enqueue_def get_actor_def)

lemma enqueue_effect:
  assumes "enqueue b w m delay = (r, b', w')" and "actors b (actor_name m) = Some a"
  shows "loop_effect b w (delayed_queue_name m delay) (delayed_message m delay w)
           (publish_properties m a) r b' w'"
  using assms enqueue_loop_effect by (simp add: enqueue_with_actor)

section \<open>What enqueue publishes\<close>

text \<open>
  Claim C3. When \<open>enqueue\<close> with a delay \<open>d\<close> returns, it returns the copy of the message
  that is addressed to the delay queue and whose options carry \<open>eta\<close>, the current time in
  milliseconds plus \<open>d\<close>; identifier, actor name, arguments and keyword arguments are
  those of the message. The last call of the run is the publish of that copy on the
  default exchange with the delay queue as routing key, \<open>delivery_mode\<close> 2 and the
  priority of the message's options, else of the actor's; every publish of the run
  (one per attempt that got that far) is this same publish.
\<close>

theorem delayed_enqueue:
  assumes "enqueue b w m (Some d) = (Inr m', b', w')"
  shows "m' = copy m (dq_name (queue_name m)) [(''eta'', PInt (current_millis w + d))] \<and>
         map_of (options m') ''eta'' = Some (PInt (current_millis w + d)) \<and>
         queue_name m' = dq_name (queue_name m) \<and>
         message_id m' = message_id m \<and> actor_name m' = actor_name m \<and>
         args m' = args m \<and> kwargs m' = kwargs m \<and>
         (\<exists>a. actors b (actor_name m) = Some a \<and>
            (\<exists>pre ch. new_events w w' =
               pre @ [BasicPublish ch [] (dq_name (queue_name m)) (encode m')
                        \<lparr>delivery_mode = 2,
                         priority = dict_get (options m) ''priority''
                                      (dict_get (actor_options a) ''priority'' PNone)\<rparr>]) \<and>
            (\<forall>p \<in> set (published (new_events w w')).
               p = ([], dq_name (queue_name m), encode m',
                    \<lparr>delivery_mode = 2,
                     priority = dict_get (options m) ''priority''
                                  (dict_get (actor_options a) ''priority'' PNone)\<rparr>)))"
proof -
  from assms obtain a where a: "actors b (actor_name m) = Some a"
    by (cases "actors b (actor_name m)") (auto simp: enqueue_without_actor)
  note le = enqueue_effect [OF assms a, unfolded loop_effect_def]
  have m': "m' = copy m (dq_name (queue_name m)) [(''eta'', PInt (current_millis w + d))]"
    using le by (simp add: delayed_message_def)
  have dq: "delayed_queue_name m (Some d) = dq_name (queue_name m)"
    by (simp add: delayed_queue_name_def)
  have dm: "delayed_message m (Some d) w = m'"
    using m' by (simp add: delayed_message_def)
  from le have "\<exists>pre ch. new_events w w' =
               pre @ [BasicPublish ch [] (dq_name (queue_name m)) (encode m')
                        (publish_properties m a)]"
    and "\<forall>p \<in> set (published (new_events w w')).
               p = ([], dq_name (queue_name m), encode m', publish_properties m a)"
    unfolding dq dm by blast+
  with a m' show ?thesis
    by (simp add: copy_def map_of_dict_set publish_properties_def)
qed

lemmas world_defs =
  call_def none_or_closed_def new_events_def quiet_world_def fresh_broker_def
  example_broker_def example_message_def example_actor_def

lemmas channel_defs = channel_call_def channel_def connection_def new_channel_def

theorem delayed_enqueue_witness:
  "enqueue (example_broker\<lparr>queues_declared := True\<rparr>) quiet_world example_message (Some 1000) =
     (Inr (example_message\<lparr>queue_name := ''default.DQ'',
             options := [(''priority'', PInt 5), (''eta'', PInt 1000)]\<rparr>),
      example_broker\<lparr>queues_declared := True, priv_connection := Some 0,
        state_channel := Some 1,
        emitted :=
          [BeforeEnqueue (example_message\<lparr>queue_name := ''default.DQ'',
             options := [(''priority'', PInt 5), (''eta'', PInt 1000)]\<rparr>) (Some 1000),
           AfterEnqueue (example_message\<lparr>queue_name := ''default.DQ'',
             options := [(''priority'', PInt 5), (''eta'', PInt 1000)]\<rparr>) (Some 1000)]\<rparr>,
      quiet_world\<lparr>trace :=
        [UriConnection [], ConnectionChannel 0,
         BasicPublish 1 [] ''default.DQ''
           (encode (example_message\<lparr>queue_name := ''default.DQ'',
             options := [(''priority'', PInt 5), (''eta'', PInt 1000)]\<rparr>))
           \<lparr>delivery_mode = 2, priority = PInt 5\<rparr>]\<rparr>) \<and>
   map_of (options (example_message\<lparr>queue_name := ''default.DQ'',
             options := [(''priority'', PInt 5), (''eta'', PInt 1000)]\<rparr>)) ''eta'' =
     Some (PInt (current_millis quiet_world + 1000))"
proof -
  let ?b = "example_broker\<lparr>queues_declared := True\<rparr>"
  let ?m = "example_message\<lparr>queue_name := ''default.DQ'',
             options := [(''priority'', PInt 5), (''eta'', PInt 1000)]\<rparr>"
  let ?b' = "example_broker\<lparr>queues_declared := True, priv_connection := Some 0,
        state_channel := Some 1,
        emitted := [BeforeEnqueue ?m (Some 1000), AfterEnqueue ?m (Some 1000)]\<rparr>"
  let ?w' = "quiet_world\<lparr>trace :=
        [UriConnection [], ConnectionChannel 0,
         BasicPublish 1 [] ''default.DQ'' (encode ?m) \<lparr>delivery_mode = 2, priority = PInt 5\<rparr>]\<rparr>"
  have dm: "delayed_message example_message (Some 1000) quiet_world = ?m"
    by (simp add: delayed_message_def copy_def current_millis_def dq_name_def world_defs)
  have att: "enqueue_attempt ?b quiet_world ''default.DQ'' ?m (Some 1000)
                \<lparr>delivery_mode = 2, priority = PInt 5\<rparr> = (Inr ?m, ?b', ?w')"
    by (simp add: enqueue_attempt_def channel_defs world_defs emit_def)
  have run: "enqueue ?b quiet_world example_message (Some 1000) = (Inr ?m, ?b', ?w')"
    using enqueue_loop_returns [OF att, of 1] dm
    by (simp add: enqueue_def get_actor_def delayed_queue_name_def publish_properties_def
        dict_get_def dq_name_def world_defs)
  from delayed_enqueue [OF run] run show ?thesis by simp
qed

text \<open>
  Claim C10. Every publish of an \<open>enqueue\<close> carries \<open>delivery_mode\<close> 2 and as priority
  the message's own \<open>priority\<close> option when the message has one, otherwise the actor's,
  otherwise \<open>None\<close>; so when both declare a priority the message's wins. An \<open>enqueue\<close>
  that returns has published.
\<close>

theorem published_priority:
  assumes "enqueue b w m delay = (r, b', w')" and "actors b (actor_name m) = Some a"
  shows "(\<forall>p \<in> set (published (new_events w w')).
            delivery_mode (snd (snd (snd p))) = 2 \<and>
            priority (snd (snd (snd p))) =
              (case map_of (options m) ''priority'' of
                 Some v \<Rightarrow> v
               | None \<Rightarrow>
                   (case map_of (actor_options a) ''priority'' of
                      Some v \<Rightarrow> v
                    | None \<Rightarrow> PNone))) \<and>
         ((\<exists>x. r = Inr x) \<longrightarrow> published (new_events w w') \<noteq> [])"
  using enqueue_effect [OF assms]
  by (auto simp: loop_effect_def publish_properties_def dict_get_def split: option.splits)

theorem published_priority_witness:
  "enqueue (example_broker\<lparr>queues_declared := True\<rparr>) quiet_world example_message None =
     (Inr example_message,
      example_broker\<lparr>queues_declared := True, priv_connection := Some 0,
        state_channel := Some 1,
        emitted := [BeforeEnqueue example_message None, AfterEnqueue example_message None]\<rparr>,
      quiet_world\<lparr>trace :=
        [UriConnection [], ConnectionChannel 0,
         BasicPublish 1 [] ''default'' (encode example_message)
           \<lparr>delivery_mode = 2, priority = PInt 5\<rparr>]\<rparr>) \<and>
   map_of (options example_message) ''priority'' = Some (PInt 5) \<and>
   map_of (actor_options example_actor) ''priority'' = Some (PInt 3) \<and>
   map priority (map (\<lambda>p. snd (snd (snd p)))
     (published [UriConnection [], ConnectionChannel 0,
         BasicPublish 1 [] ''default'' (encode example_message)
           \<lparr>delivery_mode = 2, priority = PInt 5\<rparr>])) = [PInt 5]"
proof -
  let ?b = "example_broker\<lparr>queues_declared := True\<rparr>"
  let ?b' = "example_broker\<lparr>queues_declared := True, priv_connection := Some 0,
        state_channel := Some 1,
        emitted := [BeforeEnqueue example_message None, AfterEnqueue example_message None]\<rparr>"
  let ?w' = "quiet_world\<lparr>trace :=
        [UriConnection [], ConnectionChannel 0,
         BasicPublish 1 [] ''default'' (encode example_message)
           \<lparr>delivery_mode = 2, priority = PInt 5\<rparr>]\<rparr>"
  have att: "enqueue_attempt ?b quiet_world ''default'' example_message None
                \<lparr>delivery_mode = 2, priority = PInt 5\<rparr> = (Inr example_message, ?b', ?w')"
    by (simp add: enqueue_attempt_def channel_defs call_def none_or_closed_def quiet_world_def
        fresh_broker_def example_broker_def emit_def)
  have a: "actors ?b (actor_name example_message) = Some example_actor"
    by (simp add: example_broker_def example_message_def)
  have q: "delayed_queue_name example_message None = ''default''"
    by (simp add: delayed_queue_name_def example_message_def)
  have dm: "delayed_message example_message None quiet_world = example_message"
    by (simp add: delayed_message_def)
  have pp: "publish_properties example_message example_actor =
      \<lparr>delivery_mode = 2, priority = PInt 5\<rparr>"
    by (simp add: publish_properties_def dict_get_def example_message_def)
  have run: "enqueue ?b quiet_world example_message None = (Inr example_message, ?b', ?w')"
    by (simp only: enqueue_with_actor [OF a] q dm pp enqueue_loop_returns [OF att])
  from published_priority [OF run a] run show ?thesis
    by (simp add: new_events_def quiet_world_def example_message_def example_actor_def)
qed

lemma declare_queue_new:
  "q \<notin> set (queues b) \<Longrightarrow>
     declare_queue b w q =
       (b\<lparr>queues := queues b @ [q],
          delay_queues := (if dq_name q \<in> set (delay_queues b) then delay_queues b
                           else delay_queues b @ [dq_name q]),
          emitted := emitted b @
            [BeforeDeclareQueue q, AfterDeclareQueue q, AfterDeclareDelayQueue (dq_name q)]\<rparr>, w)"
  by (simp add: declare_queue_def emit_def Let_def)

lemma declare_queue_known: "q \<in> set (queues b) \<Longrightarrow> declare_queue b w q = (b, w)"
  by (simp add: declare_queue_def)

subsection \<open>Declaration on consume\<close>

lemma RabbitmqConsumer_init_effect:
  assumes "RabbitmqConsumer_init c q prefetch timeout w = (r, w')"
  shows "grows w w' \<and> declared (new_events w w') = [] \<and> published (new_events w w') = []"
proof -
  obtain r1 w1 where c1: "call (ConnectionChannel c) w = (r1, w1)" by force
  obtain r2 w2 where c2: "call (BasicQos (length (trace w)) prefetch) w1 = (r2, w2)" by force
  obtain r3 w3 where c3: "call (BasicConsume (length (trace w)) q False) w2 = (r3, w3)" by force
  note g1 = call_grows [OF c1] and g2 = call_grows [OF c2] and g3 = call_grows [OF c3]
  have g12: "grows w w2" using g1 g2 by (blast intro: grows_trans)
  have g13: "grows w w3" using g12 g3 by (blast intro: grows_trans)
  have n2: "new_events w w2 = [ConnectionChannel c, BasicQos (length (trace w)) prefetch]"
    using new_events_append [of w w1 w2] g1 g2 by simp
  have n3: "new_events w w3 = [ConnectionChannel c, BasicQos (length (trace w)) prefetch,
      BasicConsume (length (trace w)) q False]"
    using new_events_append [of w w2 w3] g12 g3 n2 by simp
  from assms c1 c2 c3 g1 g12 g13 n2 n3 show ?thesis
    by (auto simp: RabbitmqConsumer_init_def split: reply.splits)
qed

text \<open>A \<open>consume\<close> that returns a consumer has declared the whole topology, whatever the
  \<open>queues_declared\<close> flag says, and leaves the flag as it was.\<close>

lemma consume_declares:
  assumes "consume b w q prefetch timeout = (Inr cons, b', w')"
  shows "declared (new_events w w') = concat (map (topology b) (queues b)) \<and>
         queues_declared b' = queues_declared b \<and> queues b' = queues b"
proof -
  obtain rd b1 w1 where d: "priv_declare_rabbitmq_queues b w = (rd, b1, w1)"
    by (cases "priv_declare_rabbitmq_queues b w") auto
  from assms d have rd: "rd = Inr ()"
    by (cases rd) (auto simp: consume_def split: if_splits prod.splits sum.splits)
  note e1 = declare_each_effect [OF d [unfolded priv_declare_rabbitmq_queues_def rd]]
  from assms d rd have *: "and_then (connection b1 w1) (\<lambda>c b2 w2.
            (case RabbitmqConsumer_init c q prefetch timeout w2 of
               (Inl e, w3) \<Rightarrow> (Inl e, b2, w3)
             | (Inr cons, w3) \<Rightarrow> (Inr cons, b2, w3))) = (Inr cons, b', w')"
    by (simp add: consume_def)
  show ?thesis
  proof (rule and_then_cases [OF *])
    fix c b2 w2
    assume c: "connection b1 w1 = (Inr c, b2, w2)"
      and k: "(case RabbitmqConsumer_init c q prefetch timeout w2 of
               (Inl e, w3) \<Rightarrow> (Inl e, b2, w3)
             | (Inr cons, w3) \<Rightarrow> (Inr cons, b2, w3)) = (Inr cons, b', w')"
    obtain r3 w3 where i: "RabbitmqConsumer_init c q prefetch timeout w2 = (r3, w3)" by force
    with k have e: "b' = b2" "w' = w3" by (auto split: sum.splits)
    note e2 = connection_effect [OF c] and e3 = RabbitmqConsumer_init_effect [OF i]
    have g12: "grows w w2" using e1 e2 by (blast intro: grows_trans)
    have "new_events w w' = new_events w w1 @ new_events w1 w2 @ new_events w2 w3"
      using new_events_append [of w w2 w3] new_events_append [of w w1 w2] e1 e2 e3 g12 e
      by simp
    with e1 e2 e3 e show ?thesis by (simp add: same_config_def)
  qed simp
qed

section \<open>Lazy declaration\<close>

text \<open>
  Claim C6. \<open>declare_queue\<close> on a new name records the name (and its delay queue) and
  emits the three declare signals; on a recorded name it changes nothing and emits
  nothing, so a second call has no effect. It makes no call of the client library and
  leaves connection, channel and the \<open>queues_declared\<close> flag alone. \<open>enqueue\<close> declares
  nothing when the flag is set; an \<open>enqueue\<close> that returns leaves the flag set, and when it
  started with the flag unset its declarations end with one full pass over the recorded
  queues. The attempt that sets the flag has declared the three queues of every recorded
  name, each once. \<open>consume\<close> declares without looking at the flag: a \<open>consume\<close> that
  returns a consumer has declared the three queues of every recorded name, each once,
  and leaves the flag and the recorded names as they were.
\<close>

theorem lazy_queue_declaration:
  "(q \<notin> set (queues b) \<longrightarrow>
      declare_queue b w q =
        (b\<lparr>queues := queues b @ [q],
           delay_queues := (if dq_name q \<in> set (delay_queues b) then delay_queues b
                            else delay_queues b @ [dq_name q]),
           emitted := emitted b @
             [BeforeDeclareQueue q, AfterDeclareQueue q, AfterDeclareDelayQueue (dq_name q)]\<rparr>,
         w)) \<and>
   (q \<in> set (queues b) \<longrightarrow> declare_queue b w q = (b, w)) \<and>
   declare_queue (fst (declare_queue b w q)) (snd (declare_queue b w q)) q = declare_queue b w q \<and>
   snd (declare_queue b w q) = w \<and>
   priv_connection (fst (declare_queue b w q)) = priv_connection b \<and>
   state_channel (fst (declare_queue b w q)) = state_channel b \<and>
   queues_declared (fst (declare_queue b w q)) = queues_declared b \<and>
   (enqueue b w m delay = (r, b', w') \<longrightarrow>
      queues b' = queues b \<and>
      (queues_declared b \<longrightarrow> queues_declared b' \<and> declared (new_events w w') = []) \<and>
      ((\<exists>x. r = Inr x) \<longrightarrow>
         queues_declared b' \<and>
         (\<not> queues_declared b \<longrightarrow>
            (\<exists>pre. declared (new_events w w') = pre @ concat (map (topology b) (queues b)))))) \<and>
   (enqueue_attempt b w qn m1 delay props = (r1, b1, w1) \<longrightarrow>
      (queues_declared b \<longrightarrow> declared (new_events w w1) = []) \<and>
      (\<not> queues_declared b \<and> queues_declared b1 \<longrightarrow>
         declared (new_events w w1) = concat (map (topology b) (queues b))) \<and>
      ((\<exists>x. r1 = Inr x) \<longrightarrow> queues_declared b1)) \<and>
   (consume b w q2 prefetch timeout = (Inr cons, b2, w2) \<longrightarrow>
      declared (new_events w w2) = concat (map (topology b) (queues b)) \<and>
      queues_declared b2 = queues_declared b \<and> queues b2 = queues b)"
proof -
  have dq: "declare_queue (fst (declare_queue b w q)) (snd (declare_queue b w q)) q =
      declare_queue b w q \<and> snd (declare_queue b w q) = w \<and>
      priv_connection (fst (declare_queue b w q)) = priv_connection b \<and>
      state_channel (fst (declare_queue b w q)) = state_channel b \<and>
      queues_declared (fst (declare_queue b w q)) = queues_declared b"
  proof (cases "q \<in> set (queues b)")
    case True
    then show ?thesis by (simp add: declare_queue_known)
  next
    case False
    then show ?thesis by (simp add: declare_queue_new declare_queue_known)
  qed
  have enq: "queues b' = queues b \<and>
      (queues_declared b \<longrightarrow> queues_declared b' \<and> declared (new_events w w') = []) \<and>
      ((\<exists>x. r = Inr x) \<longrightarrow>
         queues_declared b' \<and>
         (\<not> queues_declared b \<longrightarrow>
            (\<exists>pre. declared (new_events w w') = pre @ concat (map (topology b) (queues b)))))"
    if run: "enqueue b w m delay = (r, b', w')"
  proof (cases "actors b (actor_name m)")
    case None
    with run show ?thesis by (auto simp: enqueue_without_actor)
  next
    case (Some a)
    from enqueue_effect [OF run Some] show ?thesis
      by (auto simp: loop_effect_def same_setup_def)
  qed
  have att: "(queues_declared b \<longrightarrow> declared (new_events w w1) = []) \<and>
      (\<not> queues_declared b \<and> queues_declared b1 \<longrightarrow>
         declared (new_events w w1) = concat (map (topology b) (queues b))) \<and>
      ((\<exists>x. r1 = Inr x) \<longrightarrow> queues_declared b1)"
    if "enqueue_attempt b w qn m1 delay props = (r1, b1, w1)"
    using enqueue_attempt_effect [OF that] by auto
  have con: "declared (new_events w w2) = concat (map (topology b) (queues b)) \<and>
      queues_declared b2 = queues_declared b \<and> queues b2 = queues b"
    if "consume b w q2 prefetch timeout = (Inr cons, b2, w2)"
    using consume_declares [OF that] by simp
  from dq enq att con declare_queue_new [of q b w] declare_queue_known [of q b w]
  show ?thesis
    by blast
qed


theorem lazy_queue_declaration_witness:
  "declare_queue fresh_broker quiet_world ''default'' =
     (fresh_broker\<lparr>queues := [''default''], delay_queues := [''default.DQ''],
        emitted := [BeforeDeclareQueue ''default'', AfterDeclareQueue ''default'',
                    AfterDeclareDelayQueue ''default.DQ'']\<rparr>, quiet_world) \<and>
   declare_queue (fst (declare_queue fresh_broker quiet_world ''default''))
       (snd (declare_queue fresh_broker quiet_world ''default'')) ''default'' =
     declare_queue fresh_broker quiet_world ''default'' \<and>
   enqueue example_broker quiet_world example_message None =
     (Inr example_message,
      example_broker\<lparr>queues_declared := True, priv_connection := Some 0,
        state_channel := Some 1,
        emitted := [BeforeEnqueue example_message None, AfterEnqueue example_message None]\<rparr>,
      quiet_world\<lparr>trace :=
        [UriConnection [], ConnectionChannel 0,
         QueueDeclare 1 ''default'' True
           [(''x-dead-letter-exchange'', PStr []),
            (''x-dead-letter-routing-key'', PStr ''default.XQ'')],
         QueueDeclare 1 ''default.DQ'' True
           [(''x-dead-letter-exchange'', PStr []),
            (''x-dead-letter-routing-key'', PStr ''default.XQ'')],
         QueueDeclare 1 ''default.XQ'' True [(''x-message-ttl'', PInt 604800000)],
         BasicPublish 1 [] ''default'' (encode example_message)
           \<lparr>delivery_mode = 2, priority = PInt 5\<rparr>]\<rparr>) \<and>
   (\<exists>pre. declared
      [UriConnection [], ConnectionChannel 0,
         QueueDeclare 1 ''default'' True
           [(''x-dead-letter-exchange'', PStr []),
            (''x-dead-letter-routing-key'', PStr ''default.XQ'')],
         QueueDeclare 1 ''default.DQ'' True
           [(''x-dead-letter-exchange'', PStr []),
            (''x-dead-letter-routing-key'', PStr ''default.XQ'')],
         QueueDeclare 1 ''default.XQ'' True [(''x-message-ttl'', PInt 604800000)],
         BasicPublish 1 [] ''default'' (encode example_message)
           \<lparr>delivery_mode = 2, priority = PInt 5\<rparr>] =
      pre @ concat (map (topology example_broker) [''default''])) \<and>
   declared (new_events quiet_world
      (snd (snd (enqueue_attempt example_broker quiet_world ''default'' example_message None
         \<lparr>delivery_mode = 2, priority = PInt 5\<rparr>)))) =
     [(''default'', True,
       [(''x-dead-letter-exchange'', PStr []),
        (''x-dead-letter-routing-key'', PStr ''default.XQ'')]),
      (''default.DQ'', True,
       [(''x-dead-letter-exchange'', PStr []),
        (''x-dead-letter-routing-key'', PStr ''default.XQ'')]),
      (''default.XQ'', True, [(''x-message-ttl'', PInt 604800000)])] \<and>
   consume example_broker quiet_world ''default'' 1 5000 =
     (Inr \<lparr>consumer_channel = 5, consumer_timeout = 5000, warnings = []\<rparr>,
      example_broker\<lparr>priv_connection := Some 0, state_channel := Some 1\<rparr>,
      quiet_world\<lparr>trace :=
        [UriConnection [], ConnectionChannel 0,
         QueueDeclare 1 ''default'' True
           [(''x-dead-letter-exchange'', PStr []),
            (''x-dead-letter-routing-key'', PStr ''default.XQ'')],
         QueueDeclare 1 ''default.DQ'' True
           [(''x-dead-letter-exchange'', PStr []),
            (''x-dead-letter-routing-key'', PStr ''default.XQ'')],
         QueueDeclare 1 ''default.XQ'' True [(''x-message-ttl'', PInt 604800000)],
         ConnectionChannel 0, BasicQos 5 1, BasicConsume 5 ''default'' False]\<rparr>) \<and>
   declared (new_events quiet_world
      (snd (snd (consume example_broker quiet_world ''default'' 1 5000)))) =
     [(''default'', True,
       [(''x-dead-letter-exchange'', PStr []),
        (''x-dead-letter-routing-key'', PStr ''default.XQ'')]),
      (''default.DQ'', True,
       [(''x-dead-letter-exchange'', PStr []),
        (''x-dead-letter-routing-key'', PStr ''default.XQ'')]),
      (''default.XQ'', True, [(''x-message-ttl'', PInt 604800000)])] \<and>
   \<not> queues_declared
      (fst (snd (consume example_broker quiet_world ''default'' 1 5000)))"
proof -
  let ?b' = "example_broker\<lparr>queues_declared := True, priv_connection := Some 0,
        state_channel := Some 1,
        emitted := [BeforeEnqueue example_message None, AfterEnqueue example_message None]\<rparr>"
  let ?w' = "quiet_world\<lparr>trace :=
        [UriConnection [], ConnectionChannel 0,
         QueueDeclare 1 ''default'' True
           [(''x-dead-letter-exchange'', PStr []),
            (''x-dead-letter-routing-key'', PStr ''default.XQ'')],
         QueueDeclare 1 ''default.DQ'' True
           [(''x-dead-letter-exchange'', PStr []),
            (''x-dead-letter-routing-key'', PStr ''default.XQ'')],
         QueueDeclare 1 ''default.XQ'' True [(''x-message-ttl'', PInt 604800000)],
         BasicPublish 1 [] ''default'' (encode example_message)
           \<lparr>delivery_mode = 2, priority = PInt 5\<rparr>]\<rparr>"
  have att: "enqueue_attempt example_broker quiet_world ''default'' example_message None
                \<lparr>delivery_mode = 2, priority = PInt 5\<rparr> = (Inr example_message, ?b', ?w')"
    by (simp add: enqueue_attempt_def run_defs example_broker_def)
  have a: "actors example_broker (actor_name example_message) = Some example_actor"
    by (simp add: example_broker_def example_message_def)
  have q: "delayed_queue_name example_message None = ''default''"
    by (simp add: delayed_queue_name_def example_message_def)
  have dm: "delayed_message example_message None quiet_world = example_message"
    by (simp add: delayed_message_def)
  have pp: "publish_properties example_message example_actor =
      \<lparr>delivery_mode = 2, priority = PInt 5\<rparr>"
    by (simp add: publish_properties_def dict_get_def example_message_def)
  have run: "enqueue example_broker quiet_world example_message None =
      (Inr example_message, ?b', ?w')"
    by (simp only: enqueue_with_actor [OF a] q dm pp enqueue_loop_returns [OF att])
  have nq: "''default'' \<notin> set (queues fresh_broker)"
    by (simp add: fresh_broker_def)
  have nd: "\<not> queues_declared example_broker" "queues example_broker = [''default'']"
    by (simp_all add: example_broker_def fresh_broker_def)
  have ne: "new_events quiet_world ?w' = trace ?w'"
    by (simp add: new_events_def quiet_world_def)
  note t1 = lazy_queue_declaration [of "''default''" fresh_broker quiet_world]
  note t2 = lazy_queue_declaration [of "''default''" example_broker quiet_world
      example_message None "Inr example_message" ?b' ?w']
  from t1 nq have "declare_queue fresh_broker quiet_world ''default'' =
        (fresh_broker\<lparr>queues := queues fresh_broker @ [''default''],
           delay_queues := (if dq_name ''default'' \<in> set (delay_queues fresh_broker)
                            then delay_queues fresh_broker
                            else delay_queues fresh_broker @ [dq_name ''default'']),
           emitted := emitted fresh_broker @
             [BeforeDeclareQueue ''default'', AfterDeclareQueue ''default'',
              AfterDeclareDelayQueue (dq_name ''default'')]\<rparr>,
         quiet_world)"
    by blast
  then have c1: "declare_queue fresh_broker quiet_world ''default'' =
     (fresh_broker\<lparr>queues := [''default''], delay_queues := [''default.DQ''],
        emitted := [BeforeDeclareQueue ''default'', AfterDeclareQueue ''default'',
                    AfterDeclareDelayQueue ''default.DQ'']\<rparr>, quiet_world)"
    by (simp add: fresh_broker_def dq_name_def)
  from t1 have c2: "declare_queue (fst (declare_queue fresh_broker quiet_world ''default''))
       (snd (declare_queue fresh_broker quiet_world ''default'')) ''default'' =
     declare_queue fresh_broker quiet_world ''default''"
    by blast
  from t2 run nd have "\<exists>pre. declared (new_events quiet_world ?w') =
      pre @ concat (map (topology example_broker) (queues example_broker))"
    by blast
  then have c4: "\<exists>pre. declared (trace ?w') =
      pre @ concat (map (topology example_broker) [''default''])"
    unfolding ne nd(2) .
  have tr: "trace ?w' = [UriConnection [], ConnectionChannel 0,
         QueueDeclare 1 ''default'' True
           [(''x-dead-letter-exchange'', PStr []),
            (''x-dead-letter-routing-key'', PStr ''default.XQ'')],
         QueueDeclare 1 ''default.DQ'' True
           [(''x-dead-letter-exchange'', PStr []),
            (''x-dead-letter-routing-key'', PStr ''default.XQ'')],
         QueueDeclare 1 ''default.XQ'' True [(''x-message-ttl'', PInt 604800000)],
         BasicPublish 1 [] ''default'' (encode example_message)
           \<lparr>delivery_mode = 2, priority = PInt 5\<rparr>]"
    by simp
  note t3 = lazy_queue_declaration [of _ example_broker quiet_world _ None _ _ _
      "''default''" example_message "\<lparr>delivery_mode = 2, priority = PInt 5\<rparr>"
      "Inr example_message" ?b' ?w']
  have qd: "queues_declared ?b'" by simp
  from t3 att nd qd have "declared (new_events quiet_world ?w') =
      concat (map (topology example_broker) (queues example_broker))"
    by blast
  then have c5: "declared (new_events quiet_world
      (snd (snd (enqueue_attempt example_broker quiet_world ''default'' example_message None
         \<lparr>delivery_mode = 2, priority = PInt 5\<rparr>)))) =
     [(''default'', True,
       [(''x-dead-letter-exchange'', PStr []),
        (''x-dead-letter-routing-key'', PStr ''default.XQ'')]),
      (''default.DQ'', True,
       [(''x-dead-letter-exchange'', PStr []),
        (''x-dead-letter-routing-key'', PStr ''default.XQ'')]),
      (''default.XQ'', True, [(''x-message-ttl'', PInt 604800000)])]"
    unfolding att nd(2)
    by (simp add: topology_def priv_build_queue_arguments_def example_broker_def
        fresh_broker_def dq_name_def xq_name_def DEAD_MESSAGE_TTL_def)
  let ?cons = "\<lparr>consumer_channel = 5, consumer_timeout = 5000, warnings = []\<rparr>"
  let ?bc = "example_broker\<lparr>priv_connection := Some 0, state_channel := Some 1\<rparr>"
  let ?wc = "quiet_world\<lparr>trace :=
        [UriConnection [], ConnectionChannel 0,
         QueueDeclare 1 ''default'' True
           [(''x-dead-letter-exchange'', PStr []),
            (''x-dead-letter-routing-key'', PStr ''default.XQ'')],
         QueueDeclare 1 ''default.DQ'' True
           [(''x-dead-letter-exchange'', PStr []),
            (''x-dead-letter-routing-key'', PStr ''default.XQ'')],
         QueueDeclare 1 ''default.XQ'' True [(''x-message-ttl'', PInt 604800000)],
         ConnectionChannel 0, BasicQos 5 1, BasicConsume 5 ''default'' False]\<rparr>"
  have crun: "consume example_broker quiet_world ''default'' 1 5000 = (Inr ?cons, ?bc, ?wc)"
    by (simp add: consume_def RabbitmqConsumer_init_def and_then_def run_defs
        example_broker_def)
  note t4 = lazy_queue_declaration [where b = example_broker and w = quiet_world
      and ?q2.0 = "''default''" and prefetch = 1 and timeout = 5000 and cons = ?cons
      and ?b2.0 = ?bc and ?w2.0 = ?wc]
  from t4 crun have c6: "declared (new_events quiet_world ?wc) =
      concat (map (topology example_broker) (queues example_broker))"
    and c7: "queues_declared ?bc = queues_declared example_broker"
    by blast+
  from c6 have c6': "declared (new_events quiet_world
      (snd (snd (consume example_broker quiet_world ''default'' 1 5000)))) =
     [(''default'', True,
       [(''x-dead-letter-exchange'', PStr []),
        (''x-dead-letter-routing-key'', PStr ''default.XQ'')]),
      (''default.DQ'', True,
       [(''x-dead-letter-exchange'', PStr []),
        (''x-dead-letter-routing-key'', PStr ''default.XQ'')]),
      (''default.XQ'', True, [(''x-message-ttl'', PInt 604800000)])]"
    unfolding crun nd(2)
    by (simp add: topology_def priv_build_queue_arguments_def example_broker_def
        fresh_broker_def dq_name_def xq_name_def DEAD_MESSAGE_TTL_def)
  from c7 nd(1) have c7': "\<not> queues_declared
      (fst (snd (consume example_broker quiet_world ''default'' 1 5000)))"
    unfolding crun by simp
  from c1 c2 run c4 [unfolded tr] c5 crun c6' c7' show ?thesis by blast
qed

lemma failed_attempts_give_up:
  "failed_attempts n e0 b w qn m delay props = Some (e, b', w') \<Longrightarrow> 0 < n \<Longrightarrow>
   k + n = Suc MAX_ENQUEUE_ATTEMPTS \<Longrightarrow>
   enqueue_loop k b w qn m delay props = (Inl (ConnectionClosed e), b', w')"
proof (induction n arbitrary: k e0 b w)
  case 0
  then show ?case by simp
next
  case (Suc n)
  from Suc.prems(1) obtain e1 b1 w1
    where fa: "failed_attempt b w qn m delay props = Some (e1, b1, w1)"
      and rest: "failed_attempts n e1 b1 w1 qn m delay props = Some (e, b', w')"
    by (auto split: option.splits)
  show ?case
  proof (cases n)
    case 0
    with rest have "e1 = e" "b1 = b'" "w1 = w'" by simp_all
    moreover from 0 Suc.prems(3) have "k + 1 > MAX_ENQUEUE_ATTEMPTS" by simp
    ultimately show ?thesis using enqueue_loop_retries [OF fa, of k] by simp
  next
    case (Suc n')
    with Suc.prems(3) have "\<not> k + 1 > MAX_ENQUEUE_ATTEMPTS" "(k + 1) + n = Suc MAX_ENQUEUE_ATTEMPTS"
      by simp_all
    with enqueue_loop_retries [OF fa, of k] Suc.IH [OF rest, of "k + 1"] Suc
    show ?thesis by simp
  qed
qed

section \<open>Enqueue: bounded retry\<close>

text \<open>
  The clean-up of the handler completes whenever the \<open>close()\<close> it makes returns or
  raises an \<open>AMQPError\<close>: both deleters swallow that error and forget the handle. A pass
  that failed with a connection or channel error is then followed by the next pass,
  while fewer than \<open>MAX_ENQUEUE_ATTEMPTS\<close> passes were made.
\<close>

lemma enqueue_recover_completes:
  assumes "\<forall>x. replies w (length (trace w)) = Raise x \<longrightarrow> isinstance_AMQPError x"
  shows "\<exists>b' w'. enqueue_recover e b w = (Inr (), b', w') \<and>
           (e = AMQPConnectionError \<longrightarrow>
              priv_connection b' = None \<and> state_channel b' = state_channel b) \<and>
           (e \<noteq> AMQPConnectionError \<longrightarrow>
              state_channel b' = None \<and> priv_connection b' = priv_connection b)"
  using assms
  by (auto simp: enqueue_recover_def del_connection_def del_channel_def call_def
      split: option.splits reply.splits)

lemma failed_pass_is_retried:
  assumes "enqueue_attempt b w qn m delay props = (Inl e, b1, w1)"
    and "connection_or_channel_error e"
    and "\<forall>x. replies w1 (length (trace w1)) = Raise x \<longrightarrow> isinstance_AMQPError x"
    and "k < MAX_ENQUEUE_ATTEMPTS"
  shows "\<exists>b2 w2. enqueue_recover e b1 w1 = (Inr (), b2, w2) \<and>
           enqueue_loop k b w qn m delay props = enqueue_loop (Suc k) b2 w2 qn m delay props"
proof -
  from enqueue_recover_completes [OF assms(3), of e b1] obtain b2 w2
    where r: "enqueue_recover e b1 w1 = (Inr (), b2, w2)" by blast
  with assms(1,2) have "failed_attempt b w qn m delay props = Some (e, b2, w2)"
    by (simp add: failed_attempt_def)
  from enqueue_loop_retries [OF this, of k] assms(4) r show ?thesis by simp
qed

text \<open>
  What the handler of \<open>enqueue\<close> does, and the bound of the loop. After a channel error
  the handler closes and forgets the thread's channel and leaves the connection (the
  channel stays cached only when \<open>close()\<close> itself raises \<open>AttributeError\<close>). After a
  connection error it closes and forgets the shared connection and leaves the thread's
  channel slot as it was. A pass that failed this way is followed, while fewer than
  \<open>MAX_ENQUEUE_ATTEMPTS\<close> passes were made, by a new pass of the whole attempt from the
  recovered state; six such passes in a row make \<open>enqueue\<close> raise \<open>ConnectionClosed\<close>,
  carrying the last error.
\<close>

lemma enqueue_handler_then_retry:
  "(enqueue_recover AMQPChannelError b w = (Inr u, b1, w1) \<longrightarrow>
      priv_connection b1 = priv_connection b \<and>
      (state_channel b1 = None \<or> replies w (length (trace w)) = Raise AttributeError)) \<and>
   (enqueue_recover AMQPConnectionError b w = (Inr u, b1, w1) \<longrightarrow>
      priv_connection b1 = None \<and> state_channel b1 = state_channel b) \<and>
   (failed_attempt b w qn m delay props = Some (e, b2, w2) \<and> k < MAX_ENQUEUE_ATTEMPTS \<longrightarrow>
      connection_or_channel_error e \<and>
      enqueue_loop k b w qn m delay props = enqueue_loop (Suc k) b2 w2 qn m delay props) \<and>
   (actors b (actor_name m) = Some a \<and>
    failed_attempts 6 e0 b w (delayed_queue_name m delay) (delayed_message m delay w) delay
      (publish_properties m a) = Some (e, b', w') \<longrightarrow>
      enqueue b w m delay = (Inl (ConnectionClosed e), b', w'))"
proof (intro conjI impI)
  assume "enqueue_recover AMQPChannelError b w = (Inr u, b1, w1)"
  then have "del_channel b w = (Inr (), b1, w1)" by (simp add: enqueue_recover_def)
  from del_channel_effect [OF this]
  show "priv_connection b1 = priv_connection b"
    and "state_channel b1 = None \<or> replies w (length (trace w)) = Raise AttributeError"
    by simp_all
next
  assume "enqueue_recover AMQPConnectionError b w = (Inr u, b1, w1)"
  then have "del_connection b w = (Inr (), b1, w1)" by (simp add: enqueue_recover_def)
  from del_connection_effect [OF this]
  show "priv_connection b1 = None" and "state_channel b1 = state_channel b" by simp_all
next
  assume a: "failed_attempt b w qn m delay props = Some (e, b2, w2) \<and> k < MAX_ENQUEUE_ATTEMPTS"
  then show "connection_or_channel_error e"
    using failed_attempt_effect by blast
  from a enqueue_loop_retries [of b w qn m delay props e b2 w2 k]
  show "enqueue_loop k b w qn m delay props = enqueue_loop (Suc k) b2 w2 qn m delay props"
    by simp
next
  assume a: "actors b (actor_name m) = Some a \<and>
    failed_attempts 6 e0 b w (delayed_queue_name m delay) (delayed_message m delay w) delay
      (publish_properties m a) = Some (e, b', w')"
  then have "enqueue_loop 1 b w (delayed_queue_name m delay) (delayed_message m delay w) delay
      (publish_properties m a) = (Inl (ConnectionClosed e), b', w')"
    by (intro failed_attempts_give_up [of 6 e0]) (simp_all add: MAX_ENQUEUE_ATTEMPTS_def)
  with a show "enqueue b w m delay = (Inl (ConnectionClosed e), b', w')"
    by (simp add: enqueue_with_actor)
qed

lemma example_publish_properties:
  "publish_properties example_message example_actor = \<lparr>delivery_mode = 2, priority = PInt 5\<rparr>"
  by (simp add: publish_properties_def dict_get_def example_message_def)

lemma example_delayed_none:
  "delayed_queue_name example_message None = ''default''"
  "delayed_message example_message None w = example_message"
  by (simp_all add: delayed_queue_name_def delayed_message_def example_message_def)

lemma dead_world_attempt:
  "failed_attempt (declared_broker\<lparr>emitted := es\<rparr>) (dead_world\<lparr>trace := tr\<rparr>) ''default''
     example_message None \<lparr>delivery_mode = 2, priority = PInt 5\<rparr> =
   Some (AMQPConnectionError,
         declared_broker\<lparr>emitted := es @ [BeforeEnqueue example_message None]\<rparr>,
         dead_world\<lparr>trace := tr @ [UriConnection []]\<rparr>)"
  by (simp add: failed_attempt_def enqueue_attempt_def enqueue_recover_def del_connection_def
      connection_or_channel_error_def channel_defs call_def none_or_closed_def emit_def
      declared_broker_def example_broker_def fresh_broker_def quiet_world_def dead_world_def)

lemma enqueue_handler_then_retry_example:
  "enqueue_recover AMQPChannelError connected_broker quiet_world =
     (Inr (), connected_broker\<lparr>state_channel := None\<rparr>,
      quiet_world\<lparr>trace := [ChannelClose 1]\<rparr>) \<and>
   priv_connection (connected_broker\<lparr>state_channel := None\<rparr>) =
     priv_connection connected_broker \<and>
   state_channel (connected_broker\<lparr>state_channel := None\<rparr>) = None \<and>
   enqueue_recover AMQPConnectionError connected_broker quiet_world =
     (Inr (), connected_broker\<lparr>priv_connection := None\<rparr>,
      quiet_world\<lparr>trace := [ConnectionClose 0]\<rparr>) \<and>
   priv_connection (connected_broker\<lparr>priv_connection := None\<rparr>) = None \<and>
   state_channel (connected_broker\<lparr>priv_connection := None\<rparr>) =
     state_channel connected_broker \<and>
   enqueue_loop 1 declared_broker dead_world ''default'' example_message None
       \<lparr>delivery_mode = 2, priority = PInt 5\<rparr> =
     enqueue_loop (Suc 1) (declared_broker\<lparr>emitted := [BeforeEnqueue example_message None]\<rparr>)
       (dead_world\<lparr>trace := [UriConnection []]\<rparr>) ''default'' example_message None
       \<lparr>delivery_mode = 2, priority = PInt 5\<rparr> \<and>
   enqueue declared_broker dead_world example_message None =
     (Inl (ConnectionClosed AMQPConnectionError),
      declared_broker\<lparr>emitted := replicate 6 (BeforeEnqueue example_message None)\<rparr>,
      dead_world\<lparr>trace := replicate 6 (UriConnection [])\<rparr>)"
proof -
  let ?p = "\<lparr>delivery_mode = 2, priority = PInt 5\<rparr>"
  have r1: "enqueue_recover AMQPChannelError connected_broker quiet_world =
     (Inr (), connected_broker\<lparr>state_channel := None\<rparr>,
      quiet_world\<lparr>trace := [ChannelClose 1]\<rparr>)"
    by (simp add: enqueue_recover_def del_channel_def call_def connected_broker_def
        quiet_world_def)
  have r2: "enqueue_recover AMQPConnectionError connected_broker quiet_world =
     (Inr (), connected_broker\<lparr>priv_connection := None\<rparr>,
      quiet_world\<lparr>trace := [ConnectionClose 0]\<rparr>)"
    by (simp add: enqueue_recover_def del_connection_def call_def connected_broker_def
        quiet_world_def)
  have nr: "replies quiet_world (length (trace quiet_world)) \<noteq> Raise AttributeError"
    by (simp add: quiet_world_def)
  have b0: "declared_broker = declared_broker\<lparr>emitted := []\<rparr>"
    by (simp add: declared_broker_def example_broker_def fresh_broker_def)
  have w0: "dead_world = dead_world\<lparr>trace := []\<rparr>"
    by (simp add: dead_world_def quiet_world_def)
  have fa1: "failed_attempt declared_broker dead_world ''default'' example_message None ?p =
      Some (AMQPConnectionError,
            declared_broker\<lparr>emitted := [BeforeEnqueue example_message None]\<rparr>,
            dead_world\<lparr>trace := [UriConnection []]\<rparr>)"
    using dead_world_attempt [of "[]" "[]"] b0 w0 by simp
  have fa6: "failed_attempts 6 AMQPError (declared_broker\<lparr>emitted := []\<rparr>)
      (dead_world\<lparr>trace := []\<rparr>) ''default'' example_message None ?p =
      Some (AMQPConnectionError,
            declared_broker\<lparr>emitted := replicate 6 (BeforeEnqueue example_message None)\<rparr>,
            dead_world\<lparr>trace := replicate 6 (UriConnection [])\<rparr>)"
    by (simp add: eval_nat_numeral dead_world_attempt)
  have a: "actors declared_broker (actor_name example_message) = Some example_actor"
    by (simp add: declared_broker_def example_broker_def example_message_def)
  note t1 = enqueue_handler_then_retry [of connected_broker quiet_world "()"
      "connected_broker\<lparr>state_channel := None\<rparr>" "quiet_world\<lparr>trace := [ChannelClose 1]\<rparr>",
      THEN conjunct1, rule_format, OF r1]
  note t2 = enqueue_handler_then_retry [of connected_broker quiet_world "()"
      "connected_broker\<lparr>priv_connection := None\<rparr>" "quiet_world\<lparr>trace := [ConnectionClose 0]\<rparr>",
      THEN conjunct2, THEN conjunct1, rule_format, OF r2]
  note t3 = enqueue_handler_then_retry [of declared_broker dead_world _ _ _
      "''default''" example_message None ?p AMQPConnectionError
      "declared_broker\<lparr>emitted := [BeforeEnqueue example_message None]\<rparr>"
      "dead_world\<lparr>trace := [UriConnection []]\<rparr>" 1,
      THEN conjunct2, THEN conjunct2, THEN conjunct1, rule_format]
  note t4 = enqueue_handler_then_retry [of declared_broker dead_world _ _ _ _ example_message
      None _ AMQPConnectionError _ _ _ example_actor AMQPError
      "declared_broker\<lparr>emitted := replicate 6 (BeforeEnqueue example_message None)\<rparr>"
      "dead_world\<lparr>trace := replicate 6 (UriConnection [])\<rparr>",
      THEN conjunct2, THEN conjunct2, THEN conjunct2, rule_format]
  have c3: "enqueue_loop 1 declared_broker dead_world ''default'' example_message None ?p =
     enqueue_loop (Suc 1) (declared_broker\<lparr>emitted := [BeforeEnqueue example_message None]\<rparr>)
       (dead_world\<lparr>trace := [UriConnection []]\<rparr>) ''default'' example_message None ?p"
    using t3 fa1 by (simp add: MAX_ENQUEUE_ATTEMPTS_def)
  have c4: "enqueue declared_broker dead_world example_message None =
     (Inl (ConnectionClosed AMQPConnectionError),
      declared_broker\<lparr>emitted := replicate 6 (BeforeEnqueue example_message None)\<rparr>,
      dead_world\<lparr>trace := replicate 6 (UriConnection [])\<rparr>)"
    using t4 a fa6 b0 w0
    by (simp only: example_delayed_none example_publish_properties)
  from r1 r2 t1 t2 nr c3 c4 show ?thesis by simp
qed


lemma message_ack_world:
  "message_ack h w = (r, w') \<Longrightarrow>
     (case h of
        RabbitmqMessage m am \<Rightarrow> new_events w w' = [MessageAck (delivery_tag am)]
      | Foreign a n \<Rightarrow> w' = w)"
  by (cases h) (auto simp: message_ack_def call_def new_events_def split: reply.splits option.splits)

lemma message_nack_world:
  "message_nack h rq w = (r, w') \<Longrightarrow>
     (case h of
        RabbitmqMessage m am \<Rightarrow> new_events w w' = [MessageNack (delivery_tag am) rq]
      | Foreign a n \<Rightarrow> w' = w)"
  by (cases h) (auto simp: message_nack_def call_def new_events_def split: reply.splits option.splits)

section \<open>Acknowledging\<close>

text \<open>
  Claim C9. \<open>ack\<close> and \<open>nack\<close> of a consumer return normally for every object they are
  handed, whatever its \<open>ack()\<close> or \<open>nack()\<close> does, with one exception: when that call
  raises an AMQP connection or channel error, \<open>ConnectionClosed\<close> is raised with the error
  as its cause, and in no other case. So a connection or channel error of the call is
  always re-raised as \<open>ConnectionClosed\<close> (for a broker message: whenever the client
  library answers the ack or the reject with such an error), any other exception is only
  logged as a warning, and a call that returns makes \<open>ack\<close> or \<open>nack\<close> return without a
  warning. An object that is not a broker message causes no call of the client library;
  a broker message causes exactly one. \<open>nack\<close> calls \<open>nack(requeue=False)\<close>: the reject it
  sends for a broker message never asks for a requeue.
\<close>

theorem ack_and_nack_outcomes:
  "(consumer_ack c h w = (r, c', w') \<longrightarrow>
      (r = Inr () \<or>
       (\<exists>e. connection_or_channel_error e \<and> fst (message_ack h w) = Inl e \<and>
            r = Inl (ConnectionClosed e))) \<and>
      (\<forall>e. fst (message_ack h w) = Inl e \<and> \<not> connection_or_channel_error e \<longrightarrow>
           r = Inr () \<and> c' = c\<lparr>warnings := warnings c @ [''Failed to ack message.'']\<rparr>) \<and>
      (\<forall>a n. h = Foreign a n \<longrightarrow> w' = w) \<and>
      (\<forall>e. fst (message_ack h w) = Inl e \<and> connection_or_channel_error e \<longrightarrow>
           r = Inl (ConnectionClosed e) \<and> c' = c) \<and>
      (\<forall>u. fst (message_ack h w) = Inr u \<longrightarrow> r = Inr () \<and> c' = c) \<and>
      (\<forall>m am. h = RabbitmqMessage m am \<longrightarrow>
           new_events w w' = [MessageAck (delivery_tag am)] \<and>
           (\<forall>e. replies w (length (trace w)) = Raise e \<and> connection_or_channel_error e \<longrightarrow>
                r = Inl (ConnectionClosed e))) \<and>
      (\<forall>e n. h = Foreign (Some e) n \<and> connection_or_channel_error e \<longrightarrow>
           r = Inl (ConnectionClosed e))) \<and>
   (consumer_nack c h w = (r, c', w') \<longrightarrow>
      (r = Inr () \<or>
       (\<exists>e. connection_or_channel_error e \<and> fst (message_nack h False w) = Inl e \<and>
            r = Inl (ConnectionClosed e))) \<and>
      (\<forall>e. fst (message_nack h False w) = Inl e \<and> \<not> connection_or_channel_error e \<longrightarrow>
           r = Inr () \<and> c' = c\<lparr>warnings := warnings c @ [''Failed to nack message.'']\<rparr>) \<and>
      (\<forall>a n. h = Foreign a n \<longrightarrow> w' = w) \<and>
      (\<forall>m am. h = RabbitmqMessage m am \<longrightarrow>
           new_events w w' = [MessageNack (delivery_tag am) False]) \<and>
      (\<forall>e. fst (message_nack h False w) = Inl e \<and> connection_or_channel_error e \<longrightarrow>
           r = Inl (ConnectionClosed e) \<and> c' = c) \<and>
      (\<forall>u. fst (message_nack h False w) = Inr u \<longrightarrow> r = Inr () \<and> c' = c) \<and>
      (\<forall>m am e. h = RabbitmqMessage m am \<and> replies w (length (trace w)) = Raise e \<and>
           connection_or_channel_error e \<longrightarrow> r = Inl (ConnectionClosed e)) \<and>
      (\<forall>e a n. h = Foreign a n \<and> n False = Some e \<and> connection_or_channel_error e \<longrightarrow>
           r = Inl (ConnectionClosed e)))"
proof (intro conjI impI)
  assume a: "consumer_ack c h w = (r, c', w')"
  obtain r1 w1 where m: "message_ack h w = (r1, w1)" by force
  from a m show "r = Inr () \<or>
       (\<exists>e. connection_or_channel_error e \<and> fst (message_ack h w) = Inl e \<and>
            r = Inl (ConnectionClosed e))"
    by (auto simp: consumer_ack_def split: sum.splits if_splits)
  from a m show "\<forall>e. fst (message_ack h w) = Inl e \<and> \<not> connection_or_channel_error e \<longrightarrow>
           r = Inr () \<and> c' = c\<lparr>warnings := warnings c @ [''Failed to ack message.'']\<rparr>"
    by (auto simp: consumer_ack_def split: sum.splits if_splits)
  from a m message_ack_world [OF m] show "\<forall>a n. h = Foreign a n \<longrightarrow> w' = w"
    by (auto simp: consumer_ack_def split: sum.splits if_splits)
  from a m show "\<forall>e. fst (message_ack h w) = Inl e \<and> connection_or_channel_error e \<longrightarrow>
           r = Inl (ConnectionClosed e) \<and> c' = c"
    by (auto simp: consumer_ack_def split: sum.splits if_splits)
  from a m show "\<forall>u. fst (message_ack h w) = Inr u \<longrightarrow> r = Inr () \<and> c' = c"
    by (auto simp: consumer_ack_def split: sum.splits if_splits)
  from a m message_ack_world [OF m] show "\<forall>m am. h = RabbitmqMessage m am \<longrightarrow>
           new_events w w' = [MessageAck (delivery_tag am)] \<and>
           (\<forall>e. replies w (length (trace w)) = Raise e \<and> connection_or_channel_error e \<longrightarrow>
                r = Inl (ConnectionClosed e))"
    by (auto simp: consumer_ack_def message_ack_def call_def split: sum.splits if_splits)
  from a show "\<forall>e n. h = Foreign (Some e) n \<and> connection_or_channel_error e \<longrightarrow>
           r = Inl (ConnectionClosed e)"
    by (auto simp: consumer_ack_def message_ack_def)
next
  assume a: "consumer_nack c h w = (r, c', w')"
  obtain r1 w1 where m: "message_nack h False w = (r1, w1)" by force
  from a m show "r = Inr () \<or>
       (\<exists>e. connection_or_channel_error e \<and> fst (message_nack h False w) = Inl e \<and>
            r = Inl (ConnectionClosed e))"
    by (auto simp: consumer_nack_def split: sum.splits if_splits)
  from a m show "\<forall>e. fst (message_nack h False w) = Inl e \<and> \<not> connection_or_channel_error e \<longrightarrow>
           r = Inr () \<and> c' = c\<lparr>warnings := warnings c @ [''Failed to nack message.'']\<rparr>"
    by (auto simp: consumer_nack_def split: sum.splits if_splits)
  from a m message_nack_world [OF m] show "\<forall>a n. h = Foreign a n \<longrightarrow> w' = w"
    by (auto simp: consumer_nack_def split: sum.splits if_splits)
  from a m message_nack_world [OF m] show "\<forall>m am. h = RabbitmqMessage m am \<longrightarrow>
           new_events w w' = [MessageNack (delivery_tag am) False]"
    by (auto simp: consumer_nack_def split: sum.splits if_splits)
  from a m show "\<forall>e. fst (message_nack h False w) = Inl e \<and> connection_or_channel_error e \<longrightarrow>
           r = Inl (ConnectionClosed e) \<and> c' = c"
    by (auto simp: consumer_nack_def split: sum.splits if_splits)
  from a m show "\<forall>u. fst (message_nack h False w) = Inr u \<longrightarrow> r = Inr () \<and> c' = c"
    by (auto simp: consumer_nack_def split: sum.splits if_splits)
  from a show "\<forall>m am e. h = RabbitmqMessage m am \<and> replies w (length (trace w)) = Raise e \<and>
           connection_or_channel_error e \<longrightarrow> r = Inl (ConnectionClosed e)"
    by (auto simp: consumer_nack_def message_nack_def call_def)
  from a show "\<forall>e a n. h = Foreign a n \<and> n False = Some e \<and> connection_or_channel_error e \<longrightarrow>
           r = Inl (ConnectionClosed e)"
    by (auto simp: consumer_nack_def message_nack_def)
qed

theorem ack_and_nack_outcomes_witness:
  "consumer_ack example_consumer mock_handle quiet_world = (Inr (), example_consumer, quiet_world) \<and>
   consumer_nack example_consumer mock_handle quiet_world = (Inr (), example_consumer, quiet_world) \<and>
   consumer_ack example_consumer plain_object quiet_world =
     (Inr (), example_consumer\<lparr>warnings := [''Failed to ack message.'']\<rparr>, quiet_world) \<and>
   consumer_nack example_consumer plain_object quiet_world =
     (Inr (), example_consumer\<lparr>warnings := [''Failed to nack message.'']\<rparr>, quiet_world) \<and>
   consumer_nack example_consumer other_message quiet_world =
     (Inr (), example_consumer, quiet_world\<lparr>trace := [MessageNack 7 False]\<rparr>) \<and>
   consumer_ack example_consumer other_message closed_channel_world =
     (Inl (ConnectionClosed AMQPChannelError), example_consumer,
      closed_channel_world\<lparr>trace := [MessageAck 7]\<rparr>) \<and>
   new_events quiet_world (quiet_world\<lparr>trace := [MessageNack 7 False]\<rparr>) = [MessageNack 7 False] \<and>
   connection_or_channel_error AMQPChannelError \<and>
   replies closed_channel_world (length (trace closed_channel_world)) = Raise AMQPChannelError \<and>
   fst (consumer_ack example_consumer other_message closed_channel_world) =
     Inl (ConnectionClosed AMQPChannelError) \<and>
   fst (consumer_nack example_consumer other_message closed_channel_world) =
     Inl (ConnectionClosed AMQPChannelError) \<and>
   fst (consumer_nack example_consumer (Foreign None (\<lambda>_. Some AMQPConnectionError)) quiet_world) =
     Inl (ConnectionClosed AMQPConnectionError)"
proof -
  have r1: "consumer_ack example_consumer mock_handle quiet_world =
      (Inr (), example_consumer, quiet_world)"
    and r2: "consumer_nack example_consumer mock_handle quiet_world =
      (Inr (), example_consumer, quiet_world)"
    and r3: "consumer_ack example_consumer plain_object quiet_world =
     (Inr (), example_consumer\<lparr>warnings := [''Failed to ack message.'']\<rparr>, quiet_world)"
    and r4: "consumer_nack example_consumer plain_object quiet_world =
     (Inr (), example_consumer\<lparr>warnings := [''Failed to nack message.'']\<rparr>, quiet_world)"
    and r5: "consumer_nack example_consumer other_message quiet_world =
     (Inr (), example_consumer, quiet_world\<lparr>trace := [MessageNack 7 False]\<rparr>)"
    and r6: "consumer_ack example_consumer other_message closed_channel_world =
     (Inl (ConnectionClosed AMQPChannelError), example_consumer,
      closed_channel_world\<lparr>trace := [MessageAck 7]\<rparr>)"
    by (simp_all add: consumer_ack_def consumer_nack_def message_ack_def message_nack_def
        mock_handle_def plain_object_def other_message_def example_consumer_def call_def
        quiet_world_def closed_channel_world_def connection_or_channel_error_def)
  have ce: "connection_or_channel_error AMQPChannelError"
      "connection_or_channel_error AMQPConnectionError"
    by (simp_all add: connection_or_channel_error_def)
  have rp: "replies closed_channel_world (length (trace closed_channel_world)) =
      Raise AMQPChannelError"
    by (simp add: closed_channel_world_def quiet_world_def)
  from ack_and_nack_outcomes [of example_consumer other_message quiet_world "Inr ()"
      example_consumer "quiet_world\<lparr>trace := [MessageNack 7 False]\<rparr>"] r5
  have c7: "new_events quiet_world (quiet_world\<lparr>trace := [MessageNack 7 False]\<rparr>) =
      [MessageNack 7 False]"
    by (simp add: other_message_def)
  let ?a = "consumer_ack example_consumer other_message closed_channel_world"
  from ack_and_nack_outcomes [of example_consumer other_message closed_channel_world
      "fst ?a" "fst (snd ?a)" "snd (snd ?a)"] rp ce
  have c10: "fst ?a = Inl (ConnectionClosed AMQPChannelError)"
    by (simp add: other_message_def)
  let ?n = "consumer_nack example_consumer other_message closed_channel_world"
  from ack_and_nack_outcomes [of example_consumer other_message closed_channel_world
      "fst ?n" "fst (snd ?n)" "snd (snd ?n)"] rp ce
  have c11: "fst ?n = Inl (ConnectionClosed AMQPChannelError)"
    by (simp add: other_message_def)
  let ?f = "consumer_nack example_consumer (Foreign None (\<lambda>_. Some AMQPConnectionError))
      quiet_world"
  from ack_and_nack_outcomes [of example_consumer "Foreign None (\<lambda>_. Some AMQPConnectionError)"
      quiet_world "fst ?f" "fst (snd ?f)" "snd (snd ?f)"] ce
  have c12: "fst ?f = Inl (ConnectionClosed AMQPConnectionError)"
    by simp
  from r1 r2 r3 r4 r5 r6 c7 ce(1) rp c10 c11 c12 show ?thesis by blast
qed

section \<open>Join\<close>

lemma observations_append:
  "observations rep i (es @ es') = observations rep i es @ observations rep (i + length es) es'"
  by (induction rep i es rule: observations.induct) auto

lemma observations_plumbing: "list_all plumbing es \<Longrightarrow> observations rep i es = []"
  by (induction rep i es rule: observations.induct) auto

lemma grows_length:
  "grows w w' \<Longrightarrow> length (trace w') = length (trace w) + length (new_events w w')"
  using grows_trace [of w w'] by simp

lemma declare_call_observed:
  assumes "channel_call (\<lambda>ch. QueueDeclare ch name d a) b w = (Inr n, b', w')"
  shows "grows w w' \<and>
         observations (replies w) (length (trace w)) (new_events w w') = [Depth name n]"
proof -
  from channel_call_effect [OF assms] obtain pre ch
    where g: "grows w w'" and p: "list_all plumbing pre"
      and ne: "new_events w w' = pre @ [QueueDeclare ch name d a]"
      and r: "replies w (length (trace w) + length pre) = Ok n"
    by auto
  from p ne r g show ?thesis
    by (simp add: observations_append observations_plumbing)
qed

lemma message_counts_observed:
  assumes "get_queue_message_counts b w q = (Inr (n, dn, xn), b', w')"
  shows "grows w w' \<and>
         observations (replies w) (length (trace w)) (new_events w w') =
           [Depth q n, Depth (dq_name q) dn, Depth (xq_name q) xn]"
proof -
  from assms have *: "and_then (priv_declare_queue b w q) (\<lambda>n b1 w1.
       and_then (priv_declare_dq_queue b1 w1 q) (\<lambda>dn b2 w2.
         and_then (priv_declare_xq_queue b2 w2 q) (\<lambda>xn b3 w3.
           (Inr (n, dn, xn), b3, w3)))) = (Inr (n, dn, xn), b', w')"
    by (simp add: get_queue_message_counts_def)
  show ?thesis
  proof (rule and_then_cases [OF *])
    fix n1 b1 w1
    assume d1: "priv_declare_queue b w q = (Inr n1, b1, w1)"
      and k1: "and_then (priv_declare_dq_queue b1 w1 q) (\<lambda>dn b2 w2.
         and_then (priv_declare_xq_queue b2 w2 q) (\<lambda>xn b3 w3.
           (Inr (n1, dn, xn), b3, w3))) = (Inr (n, dn, xn), b', w')"
    note o1 = declare_call_observed [OF d1 [unfolded priv_declare_queue_def]]
    show ?thesis
    proof (rule and_then_cases [OF k1])
      fix n2 b2 w2
      assume d2: "priv_declare_dq_queue b1 w1 q = (Inr n2, b2, w2)"
        and k2: "and_then (priv_declare_xq_queue b2 w2 q) (\<lambda>xn b3 w3.
           (Inr (n1, n2, xn), b3, w3)) = (Inr (n, dn, xn), b', w')"
      note o2 = declare_call_observed [OF d2 [unfolded priv_declare_dq_queue_def]]
      show ?thesis
      proof (rule and_then_cases [OF k2])
        fix n3 b3 w3
        assume d3: "priv_declare_xq_queue b2 w2 q = (Inr n3, b3, w3)"
          and k3: "(Inr (n1, n2, n3), b3, w3) = (Inr (n, dn, xn), b', w')"
        note o3 = declare_call_observed [OF d3 [unfolded priv_declare_xq_queue_def]]
        have g12: "grows w w2" using o1 o2 by (blast intro: grows_trans)
        have g13: "grows w w3" using g12 o3 by (blast intro: grows_trans)
        have r: "replies w1 = replies w" "replies w2 = replies w"
          using o1 g12 by (simp_all add: grows_def)
        have ne: "new_events w w3 = new_events w w1 @ new_events w1 w2 @ new_events w2 w3"
          using new_events_append [of w w2 w3] new_events_append [of w w1 w2] o1 o2 o3 g12
          by simp
        have l1: "length (trace w1) = length (trace w) + length (new_events w w1)"
          using o1 by (blast dest: grows_length)
        have "length (trace w2) = length (trace w1) + length (new_events w1 w2)"
          using o2 by (blast dest: grows_length)
        with l1 have l2: "length (trace w2) =
            length (trace w) + length (new_events w w1) + length (new_events w1 w2)"
          by simp
        from k3 have e: "n1 = n" "n2 = dn" "n3 = xn" "b3 = b'" "w3 = w'" by simp_all
        from o1 o2 o3 r ne l1 l2 g13 show ?thesis
          unfolding e [symmetric]
          by (simp add: observations_append add.assoc)
      qed simp
    qed simp
  qed simp
qed


lemma join_loop_returns:
  "join_loop fuel b w q ms idle dl s = Some (Inr (), b', w') \<Longrightarrow>
   float_round w (of_int idle / 1000) = secs \<Longrightarrow>
   grows w w' \<and>
   ((\<exists>xs. length xs = nat (ms - s) \<and>
          observations (replies w) (length (trace w)) (new_events w w') =
            concat (map (quiet_sample q secs) xs)) \<or>
    (\<exists>pre xs. length xs = nat ms \<and>
          observations (replies w) (length (trace w)) (new_events w w') =
            pre @ concat (map (quiet_sample q secs) xs)))"
proof (induction fuel arbitrary: b w s)
  case 0
  then have "\<not> s < ms" "w' = w" by (auto split: if_splits)
  then show ?case by simp
next
  case (Suc fuel)
  show ?case
  proof (cases "s < ms")
    case False
    with Suc.prems have "w' = w" by simp
    with False show ?thesis by simp
  next
    case True
    with Suc.prems have nd: "\<not> deadline_reached dl w" by (auto split: if_splits)
    obtain rc b1 w1 where c: "get_queue_message_counts b w q = (rc, b1, w1)"
      by (cases "get_queue_message_counts b w q") auto
    with Suc.prems True nd obtain n dn xn where rc: "rc = Inr (n, dn, xn)"
      by (cases rc) (auto split: prod.splits)
    let ?w2 = "w1\<lparr>trace := trace w1 @ [Sleep secs]\<rparr>"
    let ?s' = "if n + dn = 0 then s + 1 else 0"
    note o1 = message_counts_observed [OF c [unfolded rc]]
    have fr1: "float_round w1 (of_int idle / 1000) = secs"
      using o1 Suc.prems(2) by (simp add: grows_def)
    then have fr2: "float_round ?w2 (of_int idle / 1000) = secs" by simp
    from Suc.prems(1) True nd c rc fr1
    have rec: "join_loop fuel b1 ?w2 q ms idle dl ?s' = Some (Inr (), b', w')"
      by (auto simp: time_sleep_def split: if_splits)
    note ih = Suc.IH [OF rec fr2]
    have g12: "grows w1 ?w2" by (simp add: grows_def)
    have n12: "new_events w1 ?w2 = [Sleep secs]" by (simp add: new_events_def)
    have g2: "grows w ?w2" using o1 g12 by (blast intro: grows_trans)
    have n2: "new_events w ?w2 = new_events w w1 @ [Sleep secs]"
      using new_events_append [of w w1 ?w2] o1 g12 n12 by simp
    have g: "grows w w'" using g2 ih by (blast intro: grows_trans)
    have ne: "new_events w w' = new_events w ?w2 @ new_events ?w2 w'"
      using new_events_append [of w ?w2 w'] g2 ih by blast
    have l1: "length (trace w1) = length (trace w) + length (new_events w w1)"
      using o1 by (blast dest: grows_length)
    have l2: "length (trace ?w2) = length (trace w) + length (new_events w ?w2)"
      using g2 by (blast dest: grows_length)
    have r2: "replies ?w2 = replies w" using g2 by (simp add: grows_def)
    have first: "observations (replies w) (length (trace w)) (new_events w ?w2) =
        [Depth q n, Depth (dq_name q) dn, Depth (xq_name q) xn, Slept secs]"
      using o1 l1 by (simp add: n2 observations_append)
    have total: "observations (replies w) (length (trace w)) (new_events w w') =
        [Depth q n, Depth (dq_name q) dn, Depth (xq_name q) xn, Slept secs] @
        observations (replies ?w2) (length (trace ?w2)) (new_events ?w2 w')"
      unfolding ne observations_append first r2 l2 ..
    show ?thesis
    proof (cases "n + dn = 0")
      case zero: True
      then have qs: "[Depth q n, Depth (dq_name q) dn, Depth (xq_name q) xn,
          Slept secs] = quiet_sample q secs xn"
        by (simp add: quiet_sample_def)
      from ih zero consider
        (run) xs where "length xs = nat (ms - (s + 1))"
          "observations (replies ?w2) (length (trace ?w2)) (new_events ?w2 w') =
            concat (map (quiet_sample q secs) xs)"
      | (reset) pre xs where "length xs = nat ms"
          "observations (replies ?w2) (length (trace ?w2)) (new_events ?w2 w') =
            pre @ concat (map (quiet_sample q secs) xs)"
        by auto
      then show ?thesis
      proof cases
        case run
        then have "length (xn # xs) = nat (ms - s)"
          and "observations (replies w) (length (trace w)) (new_events w w') =
            concat (map (quiet_sample q secs) (xn # xs))"
          using True by (simp_all add: total qs)
        with g show ?thesis by blast
      next
        case reset
        then have "observations (replies w) (length (trace w)) (new_events w w') =
            (quiet_sample q secs xn @ pre) @ concat (map (quiet_sample q secs) xs)"
          by (simp add: total qs)
        with g reset(1) show ?thesis by blast
      qed
    next
      case False
      from ih False obtain pre xs where "length xs = nat ms"
        and "observations (replies ?w2) (length (trace ?w2)) (new_events ?w2 w') =
            pre @ concat (map (quiet_sample q secs) xs)"
        by (auto intro: that [of _ "[]"])
      then have "observations (replies w) (length (trace w)) (new_events w w') =
          ([Depth q n, Depth (dq_name q) dn, Depth (xq_name q) xn,
            Slept secs] @ pre) @ concat (map (quiet_sample q secs) xs)"
        by (simp add: total)
      with g \<open>length xs = nat ms\<close> show ?thesis by blast
    qed
  qed
qed

text \<open>
  When \<open>join\<close> returns normally, what it observed ends with \<open>min_successes\<close> quiet
  samples in a row, each followed by its sleep.
\<close>

lemma join_returns_after_quiet_samples:
  assumes "join fuel b w q ms idle timeout = Some (Inr (), b', w')"
  shows "\<exists>pre xs. length xs = nat ms \<and>
           observations (replies w) (length (trace w)) (new_events w w') =
             pre @ concat (map (quiet_sample q (float_round w (of_int idle / 1000))) xs)"
proof -
  from join_loop_returns [OF assms [unfolded join_def] refl] consider
    (run) xs where "length xs = nat ms"
      "observations (replies w) (length (trace w)) (new_events w w') =
         concat (map (quiet_sample q (float_round w (of_int idle / 1000))) xs)"
  | (reset) pre xs where "length xs = nat ms"
      "observations (replies w) (length (trace w)) (new_events w w') =
         pre @ concat (map (quiet_sample q (float_round w (of_int idle / 1000))) xs)"
    by auto
  then show ?thesis
  proof cases
    case run
    then have "observations (replies w) (length (trace w)) (new_events w w') =
        [] @ concat (map (quiet_sample q (float_round w (of_int idle / 1000))) xs)" by simp
    with run(1) show ?thesis by blast
  next
    case reset
    then show ?thesis by blast
  qed
qed

text \<open>With a timeout other than 0 the deadline is a point in time, and a round that
  starts at or after it raises \<open>QueueJoinTimeout\<close>.\<close>

lemma join_deadline_set:
  "t \<noteq> 0 \<Longrightarrow>
     join_deadline (Some t) w =
       Some (float_round w (time_monotonic w + float_round w (of_int t / 1000)))"
  by (simp add: join_deadline_def)

lemma join_loop_times_out:
  "s < ms \<Longrightarrow> d \<noteq> 0 \<Longrightarrow> d \<le> time_monotonic w \<Longrightarrow>
     join_loop (Suc fuel) b w q ms idle (Some d) s = Some (Inl (QueueJoinTimeout q), b, w)"
  by (simp add: deadline_reached_def)

lemma join_loop_no_deadline:
  "\<not> deadline_reached None w" "\<not> deadline_reached (Some 0) w"
  by (simp_all add: deadline_reached_def)

lemma busy_channel_call:
  assumes "replies w = (\<lambda>_. Ok 1)"
  shows "\<exists>b' w'. channel_call f b w = (Inr 1, b', w') \<and> replies w' = (\<lambda>_. Ok 1) \<and>
           float_round w' = float_round w"
  using assms
  by (auto simp: channel_call_def channel_def connection_def new_channel_def call_def
      and_then_def split: if_splits)

lemma busy_message_counts:
  assumes "replies w = (\<lambda>_. Ok 1)"
  shows "\<exists>b' w'. get_queue_message_counts b w q = (Inr (1, 1, 1), b', w') \<and>
           replies w' = (\<lambda>_. Ok 1) \<and> float_round w' = float_round w"
proof -
  from busy_channel_call [OF assms] obtain b1 w1
    where 1: "priv_declare_queue b w q = (Inr 1, b1, w1)" and r1: "replies w1 = (\<lambda>_. Ok 1)"
      and f1: "float_round w1 = float_round w"
    unfolding priv_declare_queue_def by blast
  from busy_channel_call [OF r1] obtain b2 w2
    where 2: "priv_declare_dq_queue b1 w1 q = (Inr 1, b2, w2)" and r2: "replies w2 = (\<lambda>_. Ok 1)"
      and f2: "float_round w2 = float_round w1"
    unfolding priv_declare_dq_queue_def by blast
  from busy_channel_call [OF r2] obtain b3 w3
    where 3: "priv_declare_xq_queue b2 w2 q = (Inr 1, b3, w3)" and r3: "replies w3 = (\<lambda>_. Ok 1)"
      and f3: "float_round w3 = float_round w2"
    unfolding priv_declare_xq_queue_def by blast
  from 1 2 3 r3 f1 f2 f3 show ?thesis by (simp add: get_queue_message_counts_def)
qed

text \<open>While every queue reports a message and the idle time does not round to a
  negative sleep, the loop with deadline 0 neither returns nor raises.\<close>

lemma busy_join_loop:
  "replies w = (\<lambda>_. Ok 1) \<Longrightarrow> 0 \<le> float_round w (of_int idle / 1000) \<Longrightarrow>
     join_loop fuel b w q 1 idle (Some 0) 0 = None"
proof (induction fuel arbitrary: b w)
  case 0
  then show ?case by simp
next
  case (Suc fuel)
  let ?secs = "float_round w (of_int idle / 1000)"
  from busy_message_counts [OF Suc.prems(1)] obtain b1 w1
    where c: "get_queue_message_counts b w q = (Inr (1, 1, 1), b1, w1)"
      and r: "replies w1 = (\<lambda>_. Ok 1)" and f: "float_round w1 = float_round w" by blast
  have "replies (w1\<lparr>trace := trace w1 @ [Sleep ?secs]\<rparr>) = (\<lambda>_. Ok 1)"
    and "0 \<le> float_round (w1\<lparr>trace := trace w1 @ [Sleep ?secs]\<rparr>) (of_int idle / 1000)"
    using r f Suc.prems(2) by simp_all
  from Suc.IH [OF this] c f Suc.prems(2) show ?case
    by (simp add: deadline_reached_def time_sleep_def)
qed

text \<open>
  Claim C5 at \<open>timeout=0\<close>. The queue always reports one message and the clock runs.
  With \<open>timeout=0\<close> the deadline is the time of the call, so it has passed at the first
  check; yet \<open>join\<close> never raises \<open>QueueJoinTimeout\<close> and never returns, however many
  iterations it is given: \<open>deadline\<close> is 0, which the loop reads as no deadline. With
  \<open>timeout=1\<close> the same call raises \<open>QueueJoinTimeout\<close> at the second check.
\<close>

theorem join_with_zero_timeout_never_times_out:
  "(\<forall>fuel. join fuel fresh_broker busy_world ''default'' 1 100 (Some 0) = None) \<and>
   time_monotonic busy_world \<ge> time_monotonic busy_world + of_int 0 / 1000 \<and>
   map_option fst (join 2 fresh_broker busy_world ''default'' 1 100 (Some 1)) =
     Some (Inl (QueueJoinTimeout ''default''))"
proof (intro conjI allI)
  fix fuel
  show "join fuel fresh_broker busy_world ''default'' 1 100 (Some 0) = None"
    by (simp add: join_def join_deadline_def busy_join_loop busy_world_def)
next
  show "time_monotonic busy_world \<ge> time_monotonic busy_world + of_int 0 / 1000" by simp
next
  show "map_option fst (join 2 fresh_broker busy_world ''default'' 1 100 (Some 1)) =
     Some (Inl (QueueJoinTimeout ''default''))"
    by (simp add: eval_nat_numeral join_def join_deadline_def deadline_reached_def
        time_monotonic_def time_sleep_def get_queue_message_counts_def run_defs busy_world_def)
qed

section \<open>The wire encoding is lossless\<close>

lemma digit_char:
  fixes d :: nat
  assumes "d < 10"
  shows "is_digit (char_of (48 + d))" and "of_char (char_of (48 + d)) - 48 = d"
    and "char_of (48 + d) \<noteq> CHR ''e''" and "char_of (48 + d) \<noteq> CHR ''-''"
proof -
  have v: "(of_char (char_of (48 + d)) :: nat) = 48 + d"
    using assms by (simp add: of_char_of)
  show "is_digit (char_of (48 + d))" using v assms by (simp add: is_digit_def)
  show "of_char (char_of (48 + d)) - 48 = d" using v by simp
  show "char_of (48 + d) \<noteq> CHR ''e''"
  proof
    assume "char_of (48 + d) = CHR ''e''"
    then have "(of_char (char_of (48 + d)) :: nat) = of_char (CHR ''e'')" by simp
    with v assms show False by simp
  qed
  show "char_of (48 + d) \<noteq> CHR ''-''"
  proof
    assume "char_of (48 + d) = CHR ''-''"
    then have "(of_char (char_of (48 + d)) :: nat) = of_char (CHR ''-'')" by simp
    with v assms show False by simp
  qed
qed

lemma decode_digits_encode_nat:
  "decode_digits acc (encode_nat n @ rest) =
     decode_digits (acc * 10 ^ length (encode_nat n) + n) rest"
proof (induction n arbitrary: acc rest rule: encode_nat.induct)
  case (1 n)
  show ?case
  proof (cases "n < 10")
    case True
    then have e: "encode_nat n = [char_of (48 + n)]" by (subst encode_nat.simps) simp
    from digit_char [OF True] show ?thesis by (simp add: e)
  next
    case False
    have d: "n mod 10 < 10" by simp
    have e: "encode_nat n = encode_nat (n div 10) @ [char_of (48 + n mod 10)]"
      using False by (subst encode_nat.simps) simp
    have "decode_digits acc (encode_nat n @ rest) =
        decode_digits acc (encode_nat (n div 10) @ char_of (48 + n mod 10) # rest)"
      by (simp add: e)
    also have "\<dots> = decode_digits (acc * 10 ^ length (encode_nat (n div 10)) + n div 10)
        (char_of (48 + n mod 10) # rest)"
      by (rule "1.IH" [OF False])
    also have "\<dots> = decode_digits
        ((acc * 10 ^ length (encode_nat (n div 10)) + n div 10) * 10 + n mod 10) rest"
      using digit_char [OF d] by simp
    finally show ?thesis by (simp add: e algebra_simps)
  qed
qed

lemma encode_nat_first:
  "\<exists>c cs. encode_nat n = c # cs \<and> is_digit c \<and> c \<noteq> CHR ''e'' \<and> c \<noteq> CHR ''-''"
proof (induction n rule: encode_nat.induct)
  case (1 n)
  show ?case
  proof (cases "n < 10")
    case True
    then have "encode_nat n = [char_of (48 + n)]" by (subst encode_nat.simps) simp
    with digit_char [OF True] show ?thesis by simp
  next
    case False
    have "encode_nat n = encode_nat (n div 10) @ [char_of (48 + n mod 10)]"
      using False by (subst encode_nat.simps) simp
    with "1.IH" [OF False] show ?thesis by auto
  qed
qed

lemma not_digit [simp]: "\<not> is_digit (CHR '':'')" "\<not> is_digit (CHR ''e'')"
  by (simp_all add: is_digit_def)

lemma decode_nat_encode_nat:
  "\<not> is_digit c \<Longrightarrow> decode_nat (encode_nat n @ c # rest) = Some (n, c # rest)"
proof -
  assume c: "\<not> is_digit c"
  obtain d ds where e: "encode_nat n = d # ds" and d: "is_digit d"
    using encode_nat_first by blast
  have "decode_nat (encode_nat n @ c # rest) = Some (decode_digits 0 (encode_nat n @ c # rest))"
    using e d by (simp add: decode_nat_def)
  also have "decode_digits 0 (encode_nat n @ c # rest) = (n, c # rest)"
    using c by (simp add: decode_digits_encode_nat)
  finally show ?thesis .
qed

lemma decode_key_encode_key: "decode_key (encode_key k @ rest) = Some (k, rest)"
  by (simp add: decode_key_def encode_key_def decode_nat_encode_nat)

lemma encode_key_first: "\<exists>c cs. encode_key k = c # cs \<and> c \<noteq> CHR ''e''"
  using encode_nat_first [of "length k"] by (auto simp: encode_key_def)

lemma decode_int_encode:
  "decode_int ((if i < 0 then ''-'' else []) @ encode_nat (nat \<bar>i\<bar>) @ CHR ''e'' # rest) =
     Some (i, rest)"
proof (cases "i < 0")
  case True
  then show ?thesis
    by (simp add: decode_int_def expect_end_def decode_nat_encode_nat)
next
  case False
  obtain d ds where e: "encode_nat (nat \<bar>i\<bar>) = d # ds" and d: "d \<noteq> CHR ''-''"
    using encode_nat_first by blast
  have "decode_int (encode_nat (nat \<bar>i\<bar>) @ CHR ''e'' # rest) =
      map_option (\<lambda>(n, r'). (int n, r'))
        (expect_end (decode_nat (encode_nat (nat \<bar>i\<bar>) @ CHR ''e'' # rest)))"
    using e d by (simp add: decode_int_def)
  with False show ?thesis
    by (simp add: expect_end_def decode_nat_encode_nat)
qed

lemma encode_value_first: "\<exists>c cs. encode_value v = c # cs \<and> c \<noteq> CHR ''e''"
  by (cases v) auto


lemma decode_roundtrip_aux:
  "(\<forall>v rest. length (encode_value v) \<le> n \<longrightarrow>
       decode_value n (encode_value v @ rest) = Some (v, rest)) \<and>
   (\<forall>vs rest. length (concat (map encode_value vs)) < n \<longrightarrow>
       decode_list n (concat (map encode_value vs) @ CHR ''e'' # rest) = Some (vs, rest)) \<and>
   (\<forall>kvs rest. length (concat (map (\<lambda>(k, v). encode_key k @ encode_value v) kvs)) < n \<longrightarrow>
       decode_dict n (concat (map (\<lambda>(k, v). encode_key k @ encode_value v) kvs) @
                      CHR ''e'' # rest) = Some (kvs, rest))"
proof (induction n)
  case 0
  show ?case
  proof (intro conjI allI impI)
    fix v :: pyval and rest
    assume "length (encode_value v) \<le> 0"
    with encode_value_first [of v] show "decode_value 0 (encode_value v @ rest) = Some (v, rest)"
      by auto
  qed simp_all
next
  case (Suc n)
  then have ihv: "\<And>v rest. length (encode_value v) \<le> n \<Longrightarrow>
       decode_value n (encode_value v @ rest) = Some (v, rest)"
    and ihl: "\<And>vs rest. length (concat (map encode_value vs)) < n \<Longrightarrow>
       decode_list n (concat (map encode_value vs) @ CHR ''e'' # rest) = Some (vs, rest)"
    and ihd: "\<And>kvs rest.
       length (concat (map (\<lambda>(k, v). encode_key k @ encode_value v) kvs)) < n \<Longrightarrow>
       decode_dict n (concat (map (\<lambda>(k, v). encode_key k @ encode_value v) kvs) @
                      CHR ''e'' # rest) = Some (kvs, rest)"
    by blast+
  show ?case
  proof (intro conjI allI impI)
    fix v :: pyval and rest
    assume len: "length (encode_value v) \<le> Suc n"
    show "decode_value (Suc n) (encode_value v @ rest) = Some (v, rest)"
    proof (cases v)
      case PNone
      then show ?thesis by simp
    next
      case (PBool x)
      then show ?thesis by simp
    next
      case (PInt i)
      then show ?thesis using decode_int_encode [of i rest] by simp
    next
      case (PStr x)
      then show ?thesis by (simp add: decode_key_encode_key)
    next
      case (PList vs)
      with len have "length (concat (map encode_value vs)) < n" by simp
      from ihl [OF this, of rest] PList show ?thesis by simp
    next
      case (PDict kvs)
      with len have "length (concat (map (\<lambda>(k, v). encode_key k @ encode_value v) kvs)) < n"
        by simp
      from ihd [OF this, of rest] PDict show ?thesis by simp
    qed
  next
    fix vs :: "pyval list" and rest
    assume len: "length (concat (map encode_value vs)) < Suc n"
    show "decode_list (Suc n) (concat (map encode_value vs) @ CHR ''e'' # rest) = Some (vs, rest)"
    proof (cases vs)
      case Nil
      then show ?thesis by simp
    next
      case (Cons v vs')
      obtain c cs where e: "encode_value v = c # cs" and c: "c \<noteq> CHR ''e''"
        using encode_value_first by blast
      from len Cons e have l1: "length (encode_value v) \<le> n"
        and l2: "length (concat (map encode_value vs')) < n" by simp_all
      have "decode_list (Suc n) (concat (map encode_value vs) @ CHR ''e'' # rest) =
          decode_list (Suc n) (c # (cs @ concat (map encode_value vs') @ CHR ''e'' # rest))"
        using Cons e by simp
      also have "\<dots> =
          (case decode_value n (encode_value v @ concat (map encode_value vs') @ CHR ''e'' # rest) of
             None \<Rightarrow> None
           | Some (v, r) \<Rightarrow>
               (case decode_list n r of
                  None \<Rightarrow> None
                | Some (vs, r') \<Rightarrow> Some (v # vs, r')))"
        using c e by simp
      also have "\<dots> = Some (v # vs', rest)"
        using ihv [OF l1] ihl [OF l2] by simp
      finally show ?thesis using Cons by simp
    qed
  next
    fix kvs :: pydict and rest
    assume len: "length (concat (map (\<lambda>(k, v). encode_key k @ encode_value v) kvs)) < Suc n"
    show "decode_dict (Suc n) (concat (map (\<lambda>(k, v). encode_key k @ encode_value v) kvs) @
                      CHR ''e'' # rest) = Some (kvs, rest)"
    proof (cases kvs)
      case Nil
      then show ?thesis by simp
    next
      case (Cons kv kvs')
      obtain k v where kv: "kv = (k, v)" by (cases kv)
      obtain c cs where e: "encode_key k = c # cs" and c: "c \<noteq> CHR ''e''"
        using encode_key_first by blast
      obtain c' cs' where e': "encode_value v = c' # cs'"
        using encode_value_first by blast
      from len Cons kv e e' have l1: "length (encode_value v) \<le> n"
        and l2: "length (concat (map (\<lambda>(k, v). encode_key k @ encode_value v) kvs')) < n"
        by simp_all
      let ?tail = "concat (map (\<lambda>(k, v). encode_key k @ encode_value v) kvs') @ CHR ''e'' # rest"
      have "decode_dict (Suc n) (concat (map (\<lambda>(k, v). encode_key k @ encode_value v) kvs) @
                      CHR ''e'' # rest) =
          decode_dict (Suc n) (c # (cs @ encode_value v @ ?tail))"
        using Cons kv e by simp
      also have "\<dots> =
          (case decode_key (encode_key k @ encode_value v @ ?tail) of
             None \<Rightarrow> None
           | Some (k, r) \<Rightarrow>
               (case decode_value n r of
                  None \<Rightarrow> None
                | Some (v, r') \<Rightarrow>
                    (case decode_dict n r' of
                       None \<Rightarrow> None
                     | Some (kvs, r'') \<Rightarrow> Some ((k, v) # kvs, r''))))"
        using c e by simp
      also have "\<dots> = Some ((k, v) # kvs', rest)"
        using ihv [OF l1] ihd [OF l2] by (simp add: decode_key_encode_key)
      finally show ?thesis using Cons kv by simp
    qed
  qed
qed

lemma decode_value_encode_value:
  "decode_value (length (encode_value v)) (encode_value v) = Some (v, [])"
  using decode_roundtrip_aux [of "length (encode_value v)"] by (metis append_Nil2 order_refl)

lemma fromdict_asdict: "fromdict (asdict m) = Inr m"
  by (cases m) (simp add: fromdict_def asdict_def)

lemma decode_encode: "decode (encode m) = Inr m"
  by (simp add: decode_def encode_def decode_value_encode_value fromdict_asdict
      del: encode_value.simps)


text \<open>
  Claim C1. Decoding the encoding of a message gives back the message itself, hence a
  message equal to any message that equals it up to the order of its option keys. Every
  body that an \<open>enqueue\<close> publishes is decoded by \<open>_RabbitmqMessage\<close> into the message that
  \<open>enqueue\<close> returned, and an \<open>enqueue\<close> that returns has published.
\<close>

theorem wire_round_trip:
  "decode (encode m) = Inr m \<and>
   (\<forall>m2. message_equal m m2 \<longrightarrow>
      (\<exists>m1. decode (encode m) = Inr m1 \<and> message_equal m1 m2)) \<and>
   (enqueue b w m delay = (Inr m', b', w') \<longrightarrow>
      published (new_events w w') \<noteq> [] \<and>
      (\<forall>p \<in> set (published (new_events w w')). \<forall>tag.
         RabbitmqMessage_init \<lparr>body = fst (snd (snd p)), delivery_tag = tag\<rparr> =
           Inr (RabbitmqMessage m' \<lparr>body = fst (snd (snd p)), delivery_tag = tag\<rparr>)))"
proof (intro conjI allI impI)
  show "decode (encode m) = Inr m" by (rule decode_encode)
next
  fix m2 assume "message_equal m m2"
  then show "\<exists>m1. decode (encode m) = Inr m1 \<and> message_equal m1 m2"
    by (simp add: decode_encode)
next
  assume run: "enqueue b w m delay = (Inr m', b', w')"
  then obtain a where a: "actors b (actor_name m) = Some a"
    by (cases "actors b (actor_name m)") (auto simp: enqueue_without_actor)
  note le = enqueue_effect [OF run a, unfolded loop_effect_def]
  from le show "published (new_events w w') \<noteq> []" by blast
  from le have m': "m' = delayed_message m delay w"
    and p: "\<forall>p \<in> set (published (new_events w w')).
        p = ([], delayed_queue_name m delay, encode (delayed_message m delay w),
             publish_properties m a)"
    by blast+
  show "\<forall>p \<in> set (published (new_events w w')). \<forall>tag.
         RabbitmqMessage_init \<lparr>body = fst (snd (snd p)), delivery_tag = tag\<rparr> =
           Inr (RabbitmqMessage m' \<lparr>body = fst (snd (snd p)), delivery_tag = tag\<rparr>)"
  proof (intro ballI allI)
    fix q tag assume "q \<in> set (published (new_events w w'))"
    with p m' have "fst (snd (snd q)) = encode m'" by auto
    then show "RabbitmqMessage_init \<lparr>body = fst (snd (snd q)), delivery_tag = tag\<rparr> =
           Inr (RabbitmqMessage m' \<lparr>body = fst (snd (snd q)), delivery_tag = tag\<rparr>)"
      by (simp add: RabbitmqMessage_init_def decode_encode)
  qed
qed

theorem wire_round_trip_witness:
  "message_equal (example_message\<lparr>options := [(''priority'', PInt 5), (''eta'', PInt 9)]\<rparr>)
     (example_message\<lparr>options := [(''eta'', PInt 9), (''priority'', PInt 5)]\<rparr>) \<and>
   (\<exists>m1. decode (encode (example_message\<lparr>options := [(''priority'', PInt 5), (''eta'', PInt 9)]\<rparr>)) =
           Inr m1 \<and>
      message_equal m1 (example_message\<lparr>options := [(''eta'', PInt 9), (''priority'', PInt 5)]\<rparr>)) \<and>
   enqueue declared_broker quiet_world example_message None =
     (Inr example_message,
      declared_broker\<lparr>priv_connection := Some 0, state_channel := Some 1,
        emitted := [BeforeEnqueue example_message None, AfterEnqueue example_message None]\<rparr>,
      quiet_world\<lparr>trace :=
        [UriConnection [], ConnectionChannel 0,
         BasicPublish 1 [] ''default'' (encode example_message)
           \<lparr>delivery_mode = 2, priority = PInt 5\<rparr>]\<rparr>) \<and>
   RabbitmqMessage_init \<lparr>body = encode example_message, delivery_tag = 1\<rparr> =
     Inr (RabbitmqMessage example_message \<lparr>body = encode example_message, delivery_tag = 1\<rparr>)"
proof -
  let ?p = "\<lparr>delivery_mode = 2, priority = PInt 5\<rparr>"
  let ?m1 = "example_message\<lparr>options := [(''priority'', PInt 5), (''eta'', PInt 9)]\<rparr>"
  let ?m2 = "example_message\<lparr>options := [(''eta'', PInt 9), (''priority'', PInt 5)]\<rparr>"
  let ?b' = "declared_broker\<lparr>priv_connection := Some 0, state_channel := Some 1,
        emitted := [BeforeEnqueue example_message None, AfterEnqueue example_message None]\<rparr>"
  let ?w' = "quiet_world\<lparr>trace :=
        [UriConnection [], ConnectionChannel 0,
         BasicPublish 1 [] ''default'' (encode example_message) ?p]\<rparr>"
  have me: "message_equal ?m1 ?m2"
    by (auto simp: message_equal_def fun_eq_iff)
  have att: "enqueue_attempt declared_broker quiet_world ''default'' example_message None ?p =
      (Inr example_message, ?b', ?w')"
    by (simp add: enqueue_attempt_def channel_defs call_def none_or_closed_def quiet_world_def
        fresh_broker_def example_broker_def declared_broker_def emit_def)
  have a: "actors declared_broker (actor_name example_message) = Some example_actor"
    by (simp add: declared_broker_def example_broker_def example_message_def)
  have run: "enqueue declared_broker quiet_world example_message None =
      (Inr example_message, ?b', ?w')"
    by (simp only: enqueue_with_actor [OF a] example_delayed_none example_publish_properties
        enqueue_loop_returns [OF att])
  have pub: "published (new_events quiet_world ?w') =
      [([], ''default'', encode example_message, ?p)]"
    by (simp add: new_events_def quiet_world_def)
  note t1 = wire_round_trip [of ?m1]
  note t2 = wire_round_trip [of example_message declared_broker quiet_world None
      example_message ?b' ?w']
  from t1 me have c2: "\<exists>m1. decode (encode ?m1) = Inr m1 \<and> message_equal m1 ?m2"
    by blast
  from t2 run have "\<forall>p \<in> set (published (new_events quiet_world ?w')). \<forall>tag.
         RabbitmqMessage_init \<lparr>body = fst (snd (snd p)), delivery_tag = tag\<rparr> =
           Inr (RabbitmqMessage example_message \<lparr>body = fst (snd (snd p)), delivery_tag = tag\<rparr>)"
    by blast
  then have c4: "RabbitmqMessage_init \<lparr>body = encode example_message, delivery_tag = 1\<rparr> =
     Inr (RabbitmqMessage example_message \<lparr>body = encode example_message, delivery_tag = 1\<rparr>)"
    unfolding pub by simp
  from me c2 run c4 show ?thesis by blast
qed

end
